theory Spec2Isabelle
  imports Main "HOL-Library.Word" "HOL-Library.Sublist"
begin

section \<open>Bytes and strings\<close>

text \<open>
  A Go \<^verbatim>\<open>[]byte\<close> is a list of 8-bit words. A Go \<^verbatim>\<open>string\<close> is a byte sequence as
  well and is written as an Isabelle \<open>string\<close>; the conversion \<^verbatim>\<open>[]byte(s)\<close> is
  \<open>bytes_of\<close>.
\<close>

type_synonym byte = "8 word"

definition bytes_of :: "string \<Rightarrow> byte list" where
  "bytes_of s = map of_char s"

section \<open>The DHCP proxy (internal/dhcp/proxy.go)\<close>

subsection \<open>Packets as the handler sees them\<close>

text \<open>
  \<^verbatim>\<open>iana.Arch\<close> is a \<^verbatim>\<open>uint16\<close>; the named codes are those of the IANA processor
  architecture registry, which the \<^verbatim>\<open>iana\<close> package reproduces.
\<close>

type_synonym Arch = "16 word"

definition INTEL_X86PC :: Arch where "INTEL_X86PC = 0"
definition EFI_IA32 :: Arch where "EFI_IA32 = 6"
definition EFI_X86_64 :: Arch where "EFI_X86_64 = 7"
definition EFI_BC :: Arch where "EFI_BC = 9"
definition EFI_ARM64 :: Arch where "EFI_ARM64 = 11"
definition EFI_X86_HTTP :: Arch where "EFI_X86_HTTP = 15"
definition EFI_X86_64_HTTP :: Arch where "EFI_X86_64_HTTP = 16"
definition EFI_ARM64_HTTP :: Arch where "EFI_ARM64_HTTP = 19"

text \<open>
  \<^verbatim>\<open>type Firmware int\<close> with the seven constants numbered by \<^verbatim>\<open>iota\<close>. The type is an
  integer, so a value outside the seven exists and \<^verbatim>\<open>offerDHCP\<close> has a branch for it.
\<close>

type_synonym Firmware = int

definition FirmwareUnsupported :: Firmware where "FirmwareUnsupported = 0"
definition FirmwareX86PC :: Firmware where "FirmwareX86PC = 1"
definition FirmwareX86EFI :: Firmware where "FirmwareX86EFI = 2"
definition FirmwareARMEFI :: Firmware where "FirmwareARMEFI = 3"
definition FirmwareX86Ipxe :: Firmware where "FirmwareX86Ipxe = 4"
definition FirmwareX86HTTP :: Firmware where "FirmwareX86HTTP = 5"
definition FirmwareARMHTTP :: Firmware where "FirmwareARMHTTP = 6"

text \<open>
  \<^verbatim>\<open>dhcpv4.Options\<close> is a Go map from option code to \<^verbatim>\<open>[]byte\<close>. Looking up an
  absent key gives the nil slice, and the code only ever tests a looked-up value against
  nil or takes its length, so \<open>None\<close> stands for "the lookup is nil" (key absent, or
  present with a nil value) and \<open>Some bs\<close> for a non-nil value.
\<close>

type_synonym OptionCode = "8 word"
type_synonym Options = "OptionCode \<rightharpoonup> byte list"

definition OptionClassIdentifier :: OptionCode where "OptionClassIdentifier = 60"
definition OptionClientIdentifier :: OptionCode where "OptionClientIdentifier = 61"
definition OptionTFTPServerName :: OptionCode where "OptionTFTPServerName = 66"
definition OptionBootfileName :: OptionCode where "OptionBootfileName = 67"
definition OptionRelayAgentInformation :: OptionCode where "OptionRelayAgentInformation = 82"
definition OptionClientMachineIdentifier :: OptionCode where "OptionClientMachineIdentifier = 97"

type_synonym MessageType = byte

definition MessageTypeNone :: MessageType where "MessageTypeNone = 0"
definition MessageTypeDiscover :: MessageType where "MessageTypeDiscover = 1"

text \<open>\<^verbatim>\<open>net.IP\<close> is a byte slice (nil when \<^verbatim>\<open>net.ParseIP\<close> rejects its argument).\<close>

type_synonym IP = "byte list"

text \<open>
  The packet \<^verbatim>\<open>*dhcpv4.DHCPv4\<close>. \<open>Options\<close> and \<open>ServerIPAddr\<close> are fields of the Go
  struct. \<open>MessageType\<close>, \<open>ClientArch\<close> and \<open>UserClass\<close> are what the library's accessor
  methods of the same names return for the packet (they decode options 53, 93 and 77;
  the decoders belong to the library, so their results are part of the input here).
  The header fields that the proxy never reads or sets itself are left out.
\<close>

record DHCPv4 =
  MessageType :: MessageType
  ClientArch :: "Arch list"
  UserClass :: "string list"
  ServerIPAddr :: IP
  Options :: Options

datatype dhcp_error =
    NotDiscover MessageType
  | MissingOption93
  | UnsupportedClientArch "Arch list"
  | MalformedGUIDLeadingByte
  | MalformedGUIDWrongSize
  | NewReplyFailed
  | UnsupportedFirmwareType Firmware

subsection \<open>isBootDHCP\<close>

definition isBootDHCP :: "DHCPv4 \<Rightarrow> dhcp_error option" where
  "isBootDHCP pkt =
     (if MessageType pkt \<noteq> MessageTypeDiscover then Some (NotDiscover (MessageType pkt))
      else if Options pkt 93 = None then Some MissingOption93
      else None)"

subsection \<open>validateDHCP\<close>

text \<open>One pass of the body of the loop over \<^verbatim>\<open>arches\<close>: the switch on \<^verbatim>\<open>arch\<close>.\<close>

definition archSwitch :: "Arch \<Rightarrow> Firmware \<Rightarrow> Firmware" where
  "archSwitch arch fwtype =
     (if arch = INTEL_X86PC then FirmwareX86PC
      else if arch = EFI_IA32 \<or> arch = EFI_X86_64 \<or> arch = EFI_BC then FirmwareX86EFI
      else if arch = EFI_ARM64 then FirmwareARMEFI
      else if arch = EFI_X86_HTTP \<or> arch = EFI_X86_64_HTTP then FirmwareX86HTTP
      else if arch = EFI_ARM64_HTTP then FirmwareARMHTTP
      else fwtype)"

text \<open>
  \<^verbatim>\<open>m.GetOneOption(code)\<close> returns the option's bytes, nil when there is none; the code
  takes \<^verbatim>\<open>len\<close> of it, which is 0 for nil.
\<close>

definition GetOneOption :: "DHCPv4 \<Rightarrow> OptionCode \<Rightarrow> byte list option" where
  "GetOneOption m code = Options m code"

definition bytes_or_nil :: "byte list option \<Rightarrow> byte list" where
  "bytes_or_nil v = (case v of None \<Rightarrow> [] | Some bs \<Rightarrow> bs)"

definition validateDHCP :: "DHCPv4 \<Rightarrow> dhcp_error + Firmware" where
  "validateDHCP m =
     (let arches = ClientArch m;
          fwtype = fold archSwitch arches FirmwareUnsupported
      in if fwtype = FirmwareUnsupported then Inl (UnsupportedClientArch arches)
         else
           let userClasses = UserClass m;
               fwtype = (case userClasses of
                           [] \<Rightarrow> fwtype
                         | u # _ \<Rightarrow> if u = ''iPXE'' \<and> fwtype = FirmwareX86PC
                                    then FirmwareX86Ipxe else fwtype);
               guid = bytes_or_nil (GetOneOption m OptionClientMachineIdentifier)
           in if length guid = 0 then Inr fwtype
              else if length guid = 17 then
                (case guid of
                   [] \<Rightarrow> Inr fwtype
                 | g0 # _ \<Rightarrow> if g0 \<noteq> 0 then Inl MalformedGUIDLeadingByte else Inr fwtype)
              else Inl MalformedGUIDWrongSize)"

subsection \<open>offerDHCP\<close>

text \<open>
  \<^verbatim>\<open>strconv.Itoa\<close>: the decimal rendering of an integer. \<open>digit_char\<close> is only
  applied to a number below ten.
\<close>

definition digit_char :: "nat \<Rightarrow> char" where
  "digit_char d = ''0123456789'' ! d"

function Itoa_nat :: "nat \<Rightarrow> string" where
  "Itoa_nat n = (if n < 10 then [digit_char n] else Itoa_nat (n div 10) @ [digit_char (n mod 10)])"
  by pat_completeness auto
termination
  by (relation "measure id") auto

definition Itoa :: "int \<Rightarrow> string" where
  "Itoa i = (if i < 0 then CHR ''-'' # Itoa_nat (nat (- i)) else Itoa_nat (nat i))"

text \<open>\<^verbatim>\<open>net.JoinHostPort\<close>: a host with a colon in it is taken for an IPv6 literal.\<close>

definition JoinHostPort :: "string \<Rightarrow> string \<Rightarrow> string" where
  "JoinHostPort host port =
     (if CHR '':'' \<in> set host then ''['' @ host @ '']:'' @ port else host @ '':'' @ port)"

text \<open>
  \<^verbatim>\<open>resp.UpdateOption\<close> stores an option's bytes under its code;
  \<^verbatim>\<open>dhcpv4.WithOptionCopied\<close> copies an option from the request when the request's
  value is not nil; \<^verbatim>\<open>dhcpv4.WithServerIP\<close> sets the server address field.
\<close>

definition UpdateOption :: "OptionCode \<Rightarrow> byte list \<Rightarrow> DHCPv4 \<Rightarrow> DHCPv4" where
  "UpdateOption code v d = d\<lparr>Options := (Options d)(code \<mapsto> v)\<rparr>"

definition WithOptionCopied :: "DHCPv4 \<Rightarrow> OptionCode \<Rightarrow> DHCPv4 \<Rightarrow> DHCPv4" where
  "WithOptionCopied request opt d =
     (case Options request opt of None \<Rightarrow> d | Some v \<Rightarrow> UpdateOption opt v d)"

definition WithServerIP :: "IP \<Rightarrow> DHCPv4 \<Rightarrow> DHCPv4" where
  "WithServerIP ip d = d\<lparr>ServerIPAddr := ip\<rparr>"

text \<open>
  \<^verbatim>\<open>dhcpv4.NewReplyFromRequest\<close> starts from a packet with no options, applies its own
  modifiers (among them the copies of the relay-agent and client-identifier options)
  and then the caller's, in order. It fails only when the library cannot draw a
  transaction id; \<open>entropy\<close> says whether it can.
\<close>

definition newPacket :: DHCPv4 where
  "newPacket = \<lparr>MessageType = MessageTypeNone, ClientArch = [], UserClass = [],
                ServerIPAddr = [], Options = Map.empty\<rparr>"

definition NewReplyFromRequest ::
  "bool \<Rightarrow> DHCPv4 \<Rightarrow> (DHCPv4 \<Rightarrow> DHCPv4) list \<Rightarrow> dhcp_error + DHCPv4" where
  "NewReplyFromRequest entropy request modifiers =
     (if \<not> entropy then Inl NewReplyFailed
      else Inr (fold (\<lambda>modifier d. modifier d)
                  ([WithOptionCopied request OptionRelayAgentInformation,
                    WithOptionCopied request OptionClientIdentifier] @ modifiers)
                  newPacket))"

text \<open>
  \<^verbatim>\<open>offerDHCP\<close>. \<open>parseIP\<close> and \<open>ipString\<close> are \<^verbatim>\<open>net.ParseIP\<close> and the \<^verbatim>\<open>String\<close>
  method of \<^verbatim>\<open>net.IP\<close> (which \<^verbatim>\<open>%s\<close> uses as well).
\<close>

definition offerDHCP ::
  "(string \<Rightarrow> IP) \<Rightarrow> (IP \<Rightarrow> string) \<Rightarrow> bool \<Rightarrow>
   DHCPv4 \<Rightarrow> string \<Rightarrow> int \<Rightarrow> Firmware \<Rightarrow> dhcp_error + DHCPv4" where
  "offerDHCP parseIP ipString entropy req apiHost apiPort fwtype =
     (let serverIP = parseIP apiHost;
          ipPort = JoinHostPort (ipString serverIP) (Itoa apiPort);
          modifiers = [WithServerIP serverIP,
                       WithOptionCopied req OptionClientMachineIdentifier,
                       WithOptionCopied req OptionClassIdentifier]
      in case NewReplyFromRequest entropy req modifiers of
           Inl err \<Rightarrow> Inl err
         | Inr resp0 \<Rightarrow>
             let resp = (if GetOneOption resp0 OptionClassIdentifier = None
                         then UpdateOption OptionClassIdentifier (bytes_of ''PXEClient'') resp0
                         else resp0)
             in if fwtype = FirmwareX86PC then
                  Inr (UpdateOption OptionBootfileName (bytes_of ''undionly.kpxe'')
                        (UpdateOption OptionTFTPServerName (bytes_of (ipString serverIP)) resp))
                else if fwtype = FirmwareX86Ipxe then
                  Inr (UpdateOption OptionBootfileName
                        (bytes_of (''tftp://'' @ ipString serverIP @ ''/undionly.kpxe'')) resp)
                else if fwtype = FirmwareX86EFI then
                  Inr (UpdateOption OptionBootfileName (bytes_of ''snp.efi'')
                        (UpdateOption OptionTFTPServerName (bytes_of (ipString serverIP)) resp))
                else if fwtype = FirmwareARMEFI then
                  Inr (UpdateOption OptionBootfileName (bytes_of ''snp-arm64.efi'')
                        (UpdateOption OptionTFTPServerName (bytes_of (ipString serverIP)) resp))
                else if fwtype = FirmwareX86HTTP then
                  Inr (UpdateOption OptionBootfileName
                        (bytes_of (''http://'' @ ipPort @ ''/tftp/snp.efi'')) resp)
                else if fwtype = FirmwareARMHTTP then
                  Inr (UpdateOption OptionBootfileName
                        (bytes_of (''http://'' @ ipPort @ ''/tftp/snp-arm64.efi'')) resp)
                else Inl (UnsupportedFirmwareType fwtype))"

subsection \<open>handlePacket\<close>

text \<open>
  The handler's effects are the lines it logs and the packets it writes to the
  connection. \<^verbatim>\<open>conn.WriteTo\<close> appends the reply and its destination to \<open>written\<close>
  unless the connection is \<open>broken\<close>, in which case it returns an error. The reply is
  kept as a packet; its wire encoding is the library's.
\<close>

datatype level = Info | Error

record 'peer world =
  broken :: bool
  written :: "(DHCPv4 \<times> 'peer) list"
  logged :: "(level \<times> string) list"

definition log_line :: "level \<Rightarrow> string \<Rightarrow> 'peer world \<Rightarrow> 'peer world" where
  "log_line l msg w = w\<lparr>logged := logged w @ [(l, msg)]\<rparr>"

definition WriteTo :: "DHCPv4 \<Rightarrow> 'peer \<Rightarrow> 'peer world \<Rightarrow> bool \<times> 'peer world" where
  "WriteTo resp peer w =
     (if broken w then (False, w) else (True, w\<lparr>written := written w @ [(resp, peer)]\<rparr>))"

definition handlePacket ::
  "(string \<Rightarrow> IP) \<Rightarrow> (IP \<Rightarrow> string) \<Rightarrow> bool \<Rightarrow> string \<Rightarrow> int \<Rightarrow>
   'peer \<Rightarrow> DHCPv4 \<Rightarrow> 'peer world \<Rightarrow> 'peer world" where
  "handlePacket parseIP ipString entropy apiHost apiPort peer m w =
     (case isBootDHCP m of
        Some err \<Rightarrow> log_line Info ''ignoring packet'' w
      | None \<Rightarrow>
          (case validateDHCP m of
             Inl err \<Rightarrow> log_line Info ''invalid packet'' w
           | Inr fwtype \<Rightarrow>
               (case offerDHCP parseIP ipString entropy m apiHost apiPort fwtype of
                  Inl err \<Rightarrow> log_line Error ''failed to construct ProxyDHCP offer'' w
                | Inr resp \<Rightarrow>
                    (let w1 = log_line Info ''offering boot response'' w;
                         (ok, w2) = WriteTo resp peer w1
                     in if ok then w2 else log_line Error ''failure sending response'' w2))))"

section \<open>Paths (path/filepath on Unix)\<close>

text \<open>
  The standard library's lexical path functions, as documented. \<open>elements\<close> lists the
  non-empty pieces between slashes, which is how \<^verbatim>\<open>filepath.Clean\<close> reads a path
  (it replaces multiple separators by one).
\<close>

definition is_sep :: "char \<Rightarrow> bool" where
  "is_sep c = (c = CHR ''/'')"

function elements :: "string \<Rightarrow> string list" where
  "elements [] = []"
| "elements (c # cs) =
     (if is_sep c then elements cs
      else takeWhile (\<lambda>x. \<not> is_sep x) (c # cs) # elements (dropWhile (\<lambda>x. \<not> is_sep x) cs))"
  by pat_completeness auto
termination
  by (relation "measure length") (auto simp: length_dropWhile_le less_Suc_eq_le)

text \<open>
  \<^verbatim>\<open>filepath.Clean\<close> walks the elements and keeps the ones written so far in \<open>out\<close>
  (last written first): an element \<open>.\<close> is dropped; an element \<open>..\<close> removes the last
  element written when there is one that is not itself \<open>..\<close>, is dropped at the root of
  a rooted path, and is kept otherwise; any other element is written.
\<close>

fun clean_elements :: "bool \<Rightarrow> string list \<Rightarrow> string list \<Rightarrow> string list" where
  "clean_elements rooted out [] = rev out"
| "clean_elements rooted out (e # es) =
     (if e = ''.'' then clean_elements rooted out es
      else if e = ''..'' then
        (case out of
           [] \<Rightarrow> if rooted then clean_elements rooted [] es
                 else clean_elements rooted [''..''] es
         | t # ts \<Rightarrow> if t \<noteq> ''..'' then clean_elements rooted ts es
                     else if rooted then clean_elements rooted out es
                     else clean_elements rooted (''..'' # out) es)
      else clean_elements rooted (e # out) es)"

text \<open>\<^verbatim>\<open>strings.Join(elems, "/")\<close>.\<close>

fun join_slash :: "string list \<Rightarrow> string" where
  "join_slash [] = []"
| "join_slash [e] = e"
| "join_slash (e # f # es) = e @ ''/'' @ join_slash (f # es)"

definition IsAbs :: "string \<Rightarrow> bool" where
  "IsAbs path = (case path of [] \<Rightarrow> False | c # _ \<Rightarrow> is_sep c)"

definition Clean :: "string \<Rightarrow> string" where
  "Clean path =
     (if path = [] then ''.''
      else
        let rooted = IsAbs path;
            out = (if rooted then ''/'' else []) @ join_slash (clean_elements rooted [] (elements path))
        in if out = [] then ''.'' else out)"

text \<open>
  \<^verbatim>\<open>filepath.Rel\<close> with the base path \<^verbatim>\<open>"/"\<close>, the only base the server passes: the
  cleaned target without its leading slash, \<^verbatim>\<open>"."\<close> for the root itself, and an error
  for a target that is not rooted.
\<close>

definition Rel_root :: "string \<Rightarrow> string option" where
  "Rel_root targpath =
     (let targ = Clean targpath
      in if targ = ''/'' then Some ''.''
         else if IsAbs targ then Some (drop 1 targ)
         else None)"

text \<open>\<^verbatim>\<open>filepath.Join\<close>: the elements from the first non-empty one on, joined and cleaned.\<close>

fun Join :: "string list \<Rightarrow> string" where
  "Join [] = []"
| "Join (e # es) = (if e = [] then Join es else Clean (join_slash (e # es)))"

text \<open>\<^verbatim>\<open>filepath.Dir\<close>: everything up to the last slash, cleaned.\<close>

definition Dir :: "string \<Rightarrow> string" where
  "Dir path = Clean (rev (dropWhile (\<lambda>x. \<not> is_sep x) (rev path)))"

section \<open>The TFTP server (internal/tftp/tftp_server.go)\<close>

definition TFTPPath :: string where
  "TFTPPath = ''/var/lib/tftp''"

definition cleanPath :: "string \<Rightarrow> string" where
  "cleanPath path =
     (if path = [] then []
      else
        let path = Clean path;
            path = (if \<not> IsAbs path
                    then (case Rel_root (Clean (''/'' @ path)) of None \<Rightarrow> [] | Some r \<Rightarrow> r)
                    else path)
        in Clean path)"

text \<open>The first statement of \<^verbatim>\<open>handleRead\<close>: the name of the file that is opened.\<close>

definition handleRead_filename :: "string \<Rightarrow> string" where
  "handleRead_filename filename = Join [TFTPPath, cleanPath filename]"

section \<open>The iPXE patcher (package ipxe)\<close>

text \<open>\<^verbatim>\<open>bytes.Index\<close>: the index of the first instance of \<open>sep\<close> in \<open>s\<close>, or \<open>-1\<close>.\<close>

fun Index_nat :: "'a list \<Rightarrow> 'a list \<Rightarrow> nat option" where
  "Index_nat [] sep = (if sep = [] then Some 0 else None)"
| "Index_nat (x # xs) sep =
     (if prefix sep (x # xs) then Some 0 else map_option Suc (Index_nat xs sep))"

definition Index :: "'a list \<Rightarrow> 'a list \<Rightarrow> int" where
  "Index s sep = (case Index_nat s sep of None \<Rightarrow> - 1 | Some i \<Rightarrow> int i)"

text \<open>\<^verbatim>\<open>bytes.Repeat\<close> (which panics on a negative count; the patcher never passes one).\<close>

definition Repeat :: "'a list \<Rightarrow> int \<Rightarrow> 'a list" where
  "Repeat b count = concat (replicate (nat count) b)"

text \<open>
  \<^verbatim>\<open>copy(contents[start:end], src)\<close> on a slice with \<open>start \<le> end \<le> length contents\<close>:
  as many elements as the shorter of the two holds are overwritten in place.
\<close>

definition copy_slice :: "'a list \<Rightarrow> nat \<Rightarrow> nat \<Rightarrow> 'a list \<Rightarrow> 'a list" where
  "copy_slice contents start end' src =
     (let n = min (end' - start) (length src)
      in take start contents @ take n src @ drop (start + n) contents)"

text \<open>
  The file system: the regular files with their contents, the directories that
  \<^verbatim>\<open>os.MkdirAll\<close> was asked for, and the paths at which creating or writing fails.
  A file that cannot be read is one that \<open>files\<close> does not hold.
\<close>

record filesystem =
  files :: "string \<rightharpoonup> byte list"
  dirs :: "string set"
  denied :: "string set"

datatype patch_error =
    ReadFailed string
  | PlaceholderStartNotFound string
  | PlaceholderEndNotFound string
  | PlaceholderEndBeforeStart
  | ScriptTooLarge int int
  | MkdirFailed string
  | WriteFailed string

definition os_ReadFile :: "string \<Rightarrow> filesystem \<Rightarrow> patch_error + byte list" where
  "os_ReadFile name fs = (case files fs name of None \<Rightarrow> Inl (ReadFailed name) | Some c \<Rightarrow> Inr c)"

definition os_MkdirAll :: "string \<Rightarrow> filesystem \<Rightarrow> patch_error option \<times> filesystem" where
  "os_MkdirAll path fs =
     (if path \<in> denied fs then (Some (MkdirFailed path), fs)
      else (None, fs\<lparr>dirs := insert path (dirs fs)\<rparr>))"

definition os_WriteFile ::
  "string \<Rightarrow> byte list \<Rightarrow> filesystem \<Rightarrow> patch_error option \<times> filesystem" where
  "os_WriteFile name data fs =
     (if name \<in> denied fs then (Some (WriteFailed name), fs)
      else (None, fs\<lparr>files := (files fs)(name \<mapsto> data)\<rparr>))"

definition placeholderStart :: "byte list" where
  "placeholderStart = bytes_of ''# *PLACEHOLDER START*''"

definition placeholderEnd :: "byte list" where
  "placeholderEnd = bytes_of ''# *PLACEHOLDER END*''"

definition patchScript ::
  "string \<Rightarrow> string \<Rightarrow> byte list \<Rightarrow> filesystem \<Rightarrow> patch_error option \<times> filesystem" where
  "patchScript source destination script fs =
     (case os_ReadFile source fs of
        Inl err \<Rightarrow> (Some err, fs)
      | Inr contents \<Rightarrow>
          let start = Index contents placeholderStart
          in if start = - 1 then (Some (PlaceholderStartNotFound source), fs)
             else
               let end0 = Index contents placeholderEnd
               in if end0 = - 1 then (Some (PlaceholderEndNotFound source), fs)
                  else if end0 < start then (Some PlaceholderEndBeforeStart, fs)
                  else
                    let end' = end0 + int (length placeholderEnd);
                        length' = end' - start
                    in if int (length script) > length'
                       then (Some (ScriptTooLarge (int (length script)) length'), fs)
                       else
                         let script = script @ Repeat [10] (length' - int (length script));
                             contents = copy_slice contents (nat start) (nat end') script
                         in (case os_MkdirAll (Dir destination) fs of
                               (Some err, fs1) \<Rightarrow> (Some err, fs1)
                             | (None, fs1) \<Rightarrow> os_WriteFile destination contents fs1))"

section \<open>The specification's tables\<close>

text \<open>
  The definitions of this section follow the words of the specification, not the code;
  the theorems compare the code with them.
\<close>

text \<open>The architecture codes that the classifier's mapping table lists.\<close>

definition recognized :: "Arch \<Rightarrow> bool" where
  "recognized a \<longleftrightarrow>
     a \<in> {INTEL_X86PC, EFI_IA32, EFI_X86_64, EFI_BC, EFI_ARM64,
          EFI_X86_HTTP, EFI_X86_64_HTTP, EFI_ARM64_HTTP}"

text \<open>The mapping table from architecture code to provisional firmware variant.\<close>

definition spec_arch_table :: "Arch \<Rightarrow> Firmware" where
  "spec_arch_table a =
     (if a = INTEL_X86PC then FirmwareX86PC
      else if a \<in> {EFI_IA32, EFI_X86_64, EFI_BC} then FirmwareX86EFI
      else if a = EFI_ARM64 then FirmwareARMEFI
      else if a \<in> {EFI_X86_HTTP, EFI_X86_64_HTTP} then FirmwareX86HTTP
      else if a = EFI_ARM64_HTTP then FirmwareARMHTTP
      else FirmwareUnsupported)"

text \<open>X86PC becomes X86Ipxe exactly when the first user-class string is \<^verbatim>\<open>iPXE\<close>.\<close>

definition spec_ipxe_override :: "string list \<Rightarrow> Firmware \<Rightarrow> Firmware" where
  "spec_ipxe_override ucs fw =
     (if fw = FirmwareX86PC \<and> take 1 ucs = [''iPXE''] then FirmwareX86Ipxe else fw)"

text \<open>A well-formed GUID: no bytes at all, or 17 bytes of which the first is zero.\<close>

definition spec_guid_ok :: "byte list \<Rightarrow> bool" where
  "spec_guid_ok g \<longleftrightarrow> length g = 0 \<or> (length g = 17 \<and> take 1 g = [0])"

text \<open>The six supported firmware variants.\<close>

definition supported :: "Firmware \<Rightarrow> bool" where
  "supported fw \<longleftrightarrow>
     fw \<in> {FirmwareX86PC, FirmwareX86EFI, FirmwareARMEFI, FirmwareX86Ipxe,
           FirmwareX86HTTP, FirmwareARMHTTP}"

text \<open>
  The boot-filename table of the reply, for a server address \<open>ip\<close> and the joined
  \<open>ip:port\<close>.
\<close>

definition spec_boot_filename :: "string \<Rightarrow> string \<Rightarrow> Firmware \<Rightarrow> string" where
  "spec_boot_filename ip ipPort fw =
     (if fw = FirmwareX86PC then ''undionly.kpxe''
      else if fw = FirmwareX86Ipxe then ''tftp://'' @ ip @ ''/undionly.kpxe''
      else if fw = FirmwareX86EFI then ''snp.efi''
      else if fw = FirmwareARMEFI then ''snp-arm64.efi''
      else if fw = FirmwareX86HTTP then ''http://'' @ ipPort @ ''/tftp/snp.efi''
      else if fw = FirmwareARMHTTP then ''http://'' @ ipPort @ ''/tftp/snp-arm64.efi''
      else [])"

text \<open>The variants that load a bare file name from the TFTP server named in the reply.\<close>

definition plain_tftp :: "Firmware \<Rightarrow> bool" where
  "plain_tftp fw \<longleftrightarrow> fw \<in> {FirmwareX86PC, FirmwareX86EFI, FirmwareARMEFI}"

text \<open>A path element that names something: not empty, not \<open>.\<close>, not \<open>..\<close>, no slash.\<close>

definition real_element :: "string \<Rightarrow> bool" where
  "real_element e \<longleftrightarrow> e \<noteq> [] \<and> e \<noteq> ''.'' \<and> e \<noteq> ''..'' \<and> CHR ''/'' \<notin> set e"

text \<open>
  What a patch that passes all checks writes to the destination, for a source with its
  first start marker at \<open>s\<close> and its first end marker at \<open>e\<close>.
\<close>

definition patched :: "byte list \<Rightarrow> nat \<Rightarrow> nat \<Rightarrow> byte list \<Rightarrow> byte list" where
  "patched contents s e script =
     take s contents @ script @
     replicate (e + length placeholderEnd - s - length script) 10 @
     drop (e + length placeholderEnd) contents"

text \<open>A path element as \<open>elements\<close> yields them: not empty and without a slash.\<close>

definition plain :: "string \<Rightarrow> bool" where
  "plain e \<longleftrightarrow> e \<noteq> [] \<and> CHR ''/'' \<notin> set e"

section \<open>Concrete inputs\<close>

text \<open>
  A resolver and a printer for the one address the examples use. \<^verbatim>\<open>net.ParseIP\<close>
  returns an IPv4 address in its 16-byte form.
\<close>

definition example_ParseIP :: "string \<Rightarrow> IP" where
  "example_ParseIP s =
     (if s = ''10.0.0.1'' then [0, 0, 0, 0, 0, 0, 0, 0, 0, 0, 255, 255, 10, 0, 0, 1] else [])"

definition example_IPString :: "IP \<Rightarrow> string" where
  "example_IPString ip =
     (if ip = [0, 0, 0, 0, 0, 0, 0, 0, 0, 0, 255, 255, 10, 0, 0, 1] then ''10.0.0.1'' else ''<nil>'')"

text \<open>
  A discover packet with the given architectures, user classes and further options
  (option 53 holds the message type; the examples give options 93 and 77 the bytes
  that encode the architectures and the user classes).
\<close>

definition discover :: "Arch list \<Rightarrow> string list \<Rightarrow> Options \<Rightarrow> DHCPv4" where
  "discover arches ucs opts =
     \<lparr>MessageType = MessageTypeDiscover, ClientArch = arches, UserClass = ucs,
      ServerIPAddr = [], Options = opts(53 \<mapsto> [1])\<rparr>"

text \<open>The value of one option of a reply, when there is a reply.\<close>

definition reply_option :: "dhcp_error + DHCPv4 \<Rightarrow> OptionCode \<Rightarrow> dhcp_error + byte list option" where
  "reply_option r code = (case r of Inl e \<Rightarrow> Inl e | Inr resp \<Rightarrow> Inr (Options resp code))"

text \<open>A file system that holds one file, and denies nothing.\<close>

definition single_file :: "string \<Rightarrow> byte list \<Rightarrow> filesystem" where
  "single_file name contents = \<lparr>files = [name \<mapsto> contents], dirs = {}, denied = {}\<rparr>"

section \<open>Theorems about the DHCP proxy\<close>

lemmas arch_defs = INTEL_X86PC_def EFI_IA32_def EFI_X86_64_def EFI_BC_def EFI_ARM64_def
  EFI_X86_HTTP_def EFI_X86_64_HTTP_def EFI_ARM64_HTTP_def

lemmas firmware_defs = FirmwareUnsupported_def FirmwareX86PC_def FirmwareX86EFI_def
  FirmwareARMEFI_def FirmwareX86Ipxe_def FirmwareX86HTTP_def FirmwareARMHTTP_def

lemmas option_defs = OptionClassIdentifier_def OptionClientIdentifier_def
  OptionTFTPServerName_def OptionBootfileName_def OptionRelayAgentInformation_def
  OptionClientMachineIdentifier_def

subsection \<open>Classification\<close>


lemma archSwitch_recognized: "recognized a \<Longrightarrow> archSwitch a fw = spec_arch_table a"
  by (auto simp: recognized_def archSwitch_def spec_arch_table_def arch_defs)

lemma archSwitch_unrecognized: "\<not> recognized a \<Longrightarrow> archSwitch a fw = fw"
  by (auto simp: recognized_def archSwitch_def)

lemma spec_arch_table_supported:
  "recognized a \<Longrightarrow> spec_arch_table a \<noteq> FirmwareUnsupported"
  by (auto simp: recognized_def spec_arch_table_def arch_defs firmware_defs)

text \<open>The loop leaves the table entry of the last recognized code, or its start value.\<close>

lemma fold_archSwitch:
  "fold archSwitch arches fw =
     (if filter recognized arches = [] then fw
      else spec_arch_table (last (filter recognized arches)))"
proof (induction arches arbitrary: fw)
  case Nil
  show ?case by simp
next
  case (Cons a arches)
  show ?case
  proof (cases "recognized a")
    case True
    then show ?thesis
      using Cons.IH [of "spec_arch_table a"] by (simp add: archSwitch_recognized)
  next
    case False
    then show ?thesis
      using Cons.IH [of fw] by (simp add: archSwitch_unrecognized)
  qed
qed

lemma validateDHCP_no_recognized:
  "filter recognized (ClientArch m) = [] \<Longrightarrow>
   validateDHCP m = Inl (UnsupportedClientArch (ClientArch m))"
  by (simp add: validateDHCP_def Let_def fold_archSwitch)

lemma user_class_override:
  "(case ucs of [] \<Rightarrow> fw
    | u # _ \<Rightarrow> if u = ''iPXE'' \<and> fw = FirmwareX86PC then FirmwareX86Ipxe else fw)
   = spec_ipxe_override ucs fw"
  by (cases ucs) (auto simp: spec_ipxe_override_def)

text \<open>With a recognized code in the list, only the GUID decides between success and failure.\<close>

lemma validateDHCP_some_recognized:
  assumes "filter recognized (ClientArch m) \<noteq> []"
  shows "validateDHCP m =
     (let fw = spec_ipxe_override (UserClass m)
                 (spec_arch_table (last (filter recognized (ClientArch m))));
          guid = bytes_or_nil (Options m OptionClientMachineIdentifier)
      in if length guid = 0 then Inr fw
         else if length guid = 17 then
           (if take 1 guid \<noteq> [0] then Inl MalformedGUIDLeadingByte else Inr fw)
         else Inl MalformedGUIDWrongSize)"
proof -
  let ?a = "last (filter recognized (ClientArch m))"
  have "?a \<in> set (filter recognized (ClientArch m))"
    using assms by (rule last_in_set)
  then have "recognized ?a" by simp
  then have ne: "spec_arch_table ?a \<noteq> FirmwareUnsupported"
    by (rule spec_arch_table_supported)
  show ?thesis
    using assms ne
    by (cases "bytes_or_nil (Options m OptionClientMachineIdentifier)")
       (simp_all add: validateDHCP_def Let_def fold_archSwitch user_class_override
          GetOneOption_def)
qed

text \<open>
  C1 (as amended). A packet whose architecture list has no recognized code is rejected with
  the error that carries the whole list. A packet whose list has a recognized code and
  whose GUID is well-formed (no bytes, or 17 bytes starting with zero) is classified, as
  the mapping table's entry for the last recognized code of the list, with X86PC turned
  into X86Ipxe exactly when the first user-class string is \<^verbatim>\<open>iPXE\<close>.
\<close>

theorem validateDHCP_last_recognized:
  "(filter recognized (ClientArch m) = [] \<longrightarrow>
      validateDHCP m = Inl (UnsupportedClientArch (ClientArch m))) \<and>
   (filter recognized (ClientArch m) \<noteq> [] \<and>
    spec_guid_ok (bytes_or_nil (Options m OptionClientMachineIdentifier)) \<longrightarrow>
      validateDHCP m =
        Inr (spec_ipxe_override (UserClass m)
               (spec_arch_table (last (filter recognized (ClientArch m))))))"
  by (auto simp: validateDHCP_no_recognized validateDHCP_some_recognized Let_def spec_guid_ok_def)

theorem validateDHCP_last_recognized_witness:
  "filter recognized [5, EFI_X86_64, INTEL_X86PC, 3] \<noteq> [] \<and>
   spec_guid_ok [] \<and>
   validateDHCP (discover [5, EFI_X86_64, INTEL_X86PC, 3] [''iPXE'']
       [93 \<mapsto> [0, 5, 0, 7, 0, 0, 0, 3], 77 \<mapsto> [4, 105, 80, 88, 69]]) =
     Inr FirmwareX86Ipxe \<and>
   spec_guid_ok (replicate 17 0) \<and>
   validateDHCP (discover [INTEL_X86PC, 5, EFI_ARM64_HTTP] [''iPXE'']
       [93 \<mapsto> [0, 0, 0, 5, 0, 19], 77 \<mapsto> [4, 105, 80, 88, 69], 97 \<mapsto> replicate 17 0]) =
     Inr FirmwareARMHTTP \<and>
   filter recognized [5, 3] = [] \<and>
   validateDHCP (discover [5, 3] [] [93 \<mapsto> [0, 5, 0, 3]]) = Inl (UnsupportedClientArch [5, 3])"
  using validateDHCP_last_recognized [of "discover [5, EFI_X86_64, INTEL_X86PC, 3] [''iPXE'']
       [93 \<mapsto> [0, 5, 0, 7, 0, 0, 0, 3], 77 \<mapsto> [4, 105, 80, 88, 69]]"]
    validateDHCP_last_recognized [of "discover [INTEL_X86PC, 5, EFI_ARM64_HTTP] [''iPXE'']
       [93 \<mapsto> [0, 0, 0, 5, 0, 19], 77 \<mapsto> [4, 105, 80, 88, 69], 97 \<mapsto> replicate 17 0]"]
    validateDHCP_last_recognized [of "discover [5, 3] [] [93 \<mapsto> [0, 5, 0, 3]]"]
  by (simp add: discover_def recognized_def arch_defs spec_guid_ok_def bytes_or_nil_def
      option_defs spec_ipxe_override_def spec_arch_table_def firmware_defs)

text \<open>
  C1 (as stated). A recognized code in the list does not make classification succeed: this
  packet has one, and a GUID of three bytes, and is rejected.
\<close>

theorem validateDHCP_recognized_yet_rejected:
  "recognized INTEL_X86PC \<and>
   validateDHCP (discover [INTEL_X86PC] [] [93 \<mapsto> [0, 0], 97 \<mapsto> [0, 1, 2]]) = Inl MalformedGUIDWrongSize"
  by (simp add: recognized_def validateDHCP_def discover_def archSwitch_def arch_defs
      firmware_defs GetOneOption_def option_defs bytes_or_nil_def)

text \<open>
  C5 (as amended). A packet with a malformed GUID (a length other than 0 and 17, or 17
  bytes of which the first is not zero) is always rejected; the error is the
  malformed-GUID one (wrong size, or leading byte) whenever the architecture list has a
  recognized code, and the unsupported-architecture one otherwise, the architecture
  check coming first. A well-formed GUID never causes a rejection: with one, the packet
  is rejected exactly when its list has no recognized code.
\<close>

theorem validateDHCP_guid:
  "(\<not> spec_guid_ok (bytes_or_nil (Options m OptionClientMachineIdentifier)) \<longrightarrow>
      (\<exists>e. validateDHCP m = Inl e)) \<and>
   (\<not> spec_guid_ok (bytes_or_nil (Options m OptionClientMachineIdentifier)) \<and>
    filter recognized (ClientArch m) \<noteq> [] \<longrightarrow>
      validateDHCP m =
        Inl (if length (bytes_or_nil (Options m OptionClientMachineIdentifier)) = 17
             then MalformedGUIDLeadingByte else MalformedGUIDWrongSize)) \<and>
   (\<not> spec_guid_ok (bytes_or_nil (Options m OptionClientMachineIdentifier)) \<and>
    filter recognized (ClientArch m) = [] \<longrightarrow>
      validateDHCP m = Inl (UnsupportedClientArch (ClientArch m))) \<and>
   (spec_guid_ok (bytes_or_nil (Options m OptionClientMachineIdentifier)) \<longrightarrow>
      ((\<exists>e. validateDHCP m = Inl e) \<longleftrightarrow> filter recognized (ClientArch m) = []))"
proof (cases "filter recognized (ClientArch m) = []")
  case True
  then show ?thesis by (simp add: validateDHCP_no_recognized)
next
  case False
  then show ?thesis
    by (auto simp: validateDHCP_some_recognized Let_def spec_guid_ok_def)
qed

theorem validateDHCP_guid_witness:
  "\<not> spec_guid_ok [1, 2] \<and> \<not> spec_guid_ok (7 # replicate 16 0) \<and> spec_guid_ok (replicate 17 0) \<and>
   validateDHCP (discover [EFI_X86_64] [] [93 \<mapsto> [0, 7], 97 \<mapsto> [1, 2]]) = Inl MalformedGUIDWrongSize \<and>
   validateDHCP (discover [EFI_X86_64] [] [93 \<mapsto> [0, 7], 97 \<mapsto> 7 # replicate 16 0]) = Inl MalformedGUIDLeadingByte \<and>
   (\<nexists>e. validateDHCP (discover [EFI_X86_64] [] [93 \<mapsto> [0, 7], 97 \<mapsto> replicate 17 0]) = Inl e) \<and>
   filter recognized [3, 4] = [] \<and>
   validateDHCP (discover [3, 4] [] [93 \<mapsto> [0, 3, 0, 4], 97 \<mapsto> 7 # replicate 16 0]) =
     Inl (UnsupportedClientArch [3, 4])"
  using validateDHCP_guid [of "discover [EFI_X86_64] [] [93 \<mapsto> [0, 7], 97 \<mapsto> [1, 2]]"]
    validateDHCP_guid [of "discover [EFI_X86_64] [] [93 \<mapsto> [0, 7], 97 \<mapsto> 7 # replicate 16 0]"]
    validateDHCP_guid [of "discover [EFI_X86_64] [] [93 \<mapsto> [0, 7], 97 \<mapsto> replicate 17 0]"]
    validateDHCP_guid [of "discover [3, 4] [] [93 \<mapsto> [0, 3, 0, 4], 97 \<mapsto> 7 # replicate 16 0]"]
  by (simp add: discover_def recognized_def arch_defs spec_guid_ok_def bytes_or_nil_def
      option_defs)

text \<open>
  C5 (as stated). The GUID check is not reached for every packet: this one has a malformed
  GUID and no recognized architecture, and its error is the unsupported-architecture
  one.
\<close>

theorem validateDHCP_bad_guid_other_error:
  "\<not> spec_guid_ok [1, 2] \<and>
   validateDHCP (discover [5] [] [93 \<mapsto> [0, 5], 97 \<mapsto> [1, 2]]) = Inl (UnsupportedClientArch [5])"
  by (simp add: spec_guid_ok_def validateDHCP_def discover_def archSwitch_def arch_defs
      firmware_defs)

subsection \<open>Reply construction\<close>

lemma Options_UpdateOption [simp]:
  "Options (UpdateOption code v d) = (Options d)(code \<mapsto> v)"
  by (simp add: UpdateOption_def)

lemma ServerIPAddr_UpdateOption [simp]:
  "ServerIPAddr (UpdateOption code v d) = ServerIPAddr d"
  by (simp add: UpdateOption_def)

lemma Options_WithOptionCopied:
  "Options (WithOptionCopied req opt d) =
     (case Options req opt of None \<Rightarrow> Options d | Some v \<Rightarrow> (Options d)(opt \<mapsto> v))"
  by (simp add: WithOptionCopied_def split: option.splits)

lemma ServerIPAddr_WithOptionCopied [simp]:
  "ServerIPAddr (WithOptionCopied req opt d) = ServerIPAddr d"
  by (simp add: WithOptionCopied_def split: option.splits)

text \<open>The reply before the class-identifier default and the firmware switch.\<close>

lemma NewReplyFromRequest_offer:
  "NewReplyFromRequest True req
     [WithServerIP ip, WithOptionCopied req OptionClientMachineIdentifier,
      WithOptionCopied req OptionClassIdentifier] = Inr resp0 \<Longrightarrow>
   ServerIPAddr resp0 = ip \<and>
   (\<forall>code. Options resp0 code =
      (if code \<in> {OptionRelayAgentInformation, OptionClientIdentifier,
                   OptionClientMachineIdentifier, OptionClassIdentifier}
       then Options req code else None))"
  by (auto simp: NewReplyFromRequest_def newPacket_def WithServerIP_def
      Options_WithOptionCopied option_defs split: option.splits)

lemma NewReplyFromRequest_cases:
  "NewReplyFromRequest entropy req ms = Inl e \<Longrightarrow> \<not> entropy \<and> e = NewReplyFailed"
  "entropy \<Longrightarrow> \<exists>resp0. NewReplyFromRequest entropy req ms = Inr resp0"
  "NewReplyFromRequest entropy req ms = Inr r \<Longrightarrow> entropy"
  by (auto simp: NewReplyFromRequest_def split: if_splits)

text \<open>The firmware switch, for the six supported variants, as one update by table.\<close>

lemma offerDHCP_supported:
  assumes "supported fw"
  shows "offerDHCP parseIP ipString True req apiHost apiPort fw = Inr resp \<longleftrightarrow>
     (\<exists>resp0. NewReplyFromRequest True req
        [WithServerIP (parseIP apiHost), WithOptionCopied req OptionClientMachineIdentifier,
         WithOptionCopied req OptionClassIdentifier] = Inr resp0 \<and>
      resp = (let r = (if Options resp0 OptionClassIdentifier = None
                       then UpdateOption OptionClassIdentifier (bytes_of ''PXEClient'') resp0
                       else resp0);
                  r = (if plain_tftp fw
                       then UpdateOption OptionTFTPServerName
                              (bytes_of (ipString (parseIP apiHost))) r
                       else r)
              in UpdateOption OptionBootfileName
                   (bytes_of (spec_boot_filename (ipString (parseIP apiHost))
                      (JoinHostPort (ipString (parseIP apiHost)) (Itoa apiPort)) fw)) r))"
  using assms NewReplyFromRequest_cases(2) [of True req]
  apply (simp add: supported_def)
  apply (elim disjE)
  apply (auto simp: offerDHCP_def Let_def GetOneOption_def plain_tftp_def spec_boot_filename_def firmware_defs split: sum.splits)
  done

lemma offerDHCP_unsupported:
  "\<not> supported fw \<Longrightarrow>
   offerDHCP parseIP ipString entropy req apiHost apiPort fw =
     Inl (if entropy then UnsupportedFirmwareType fw else NewReplyFailed)"
  by (auto simp: offerDHCP_def Let_def supported_def NewReplyFromRequest_def split: sum.splits)

lemma offerDHCP_no_entropy:
  "offerDHCP parseIP ipString False req apiHost apiPort fw = Inl NewReplyFailed"
  by (simp add: offerDHCP_def NewReplyFromRequest_def Let_def)

lemma offerDHCP_Inr_D:
  assumes "offerDHCP parseIP ipString entropy req apiHost apiPort fw = Inr resp"
  shows "entropy \<and> supported fw"
proof -
  have "supported fw"
  proof (rule ccontr)
    assume "\<not> supported fw"
    from offerDHCP_unsupported [OF this] assms show False by simp
  qed
  moreover have entropy
  proof (rule ccontr)
    assume "\<not> entropy"
    then have "entropy = False" by simp
    with assms offerDHCP_no_entropy show False by simp
  qed
  ultimately show ?thesis by simp
qed

lemma Itoa_8080: "Itoa 8080 = ''8080''"
  by (simp add: Itoa_def digit_char_def)

text \<open>
  C2. For each of the six supported firmware variants the reply is constructed (the
  library being able to create a packet) and its boot-filename option is the table's
  entry; for Unsupported and every other value, construction fails and there is no
  reply.
\<close>

theorem offerDHCP_boot_filename:
  "(supported fw \<longrightarrow>
      (\<exists>resp. offerDHCP parseIP ipString True req apiHost apiPort fw = Inr resp \<and>
         Options resp OptionBootfileName =
           Some (bytes_of (spec_boot_filename (ipString (parseIP apiHost))
                   (JoinHostPort (ipString (parseIP apiHost)) (Itoa apiPort)) fw)))) \<and>
   (\<not> supported fw \<longrightarrow>
      (\<exists>e. offerDHCP parseIP ipString entropy req apiHost apiPort fw = Inl e))"
proof (cases "supported fw")
  case True
  obtain resp0 where "NewReplyFromRequest True req
        [WithServerIP (parseIP apiHost), WithOptionCopied req OptionClientMachineIdentifier,
         WithOptionCopied req OptionClassIdentifier] = Inr resp0"
    using NewReplyFromRequest_cases(2) [of True] by blast
  then show ?thesis
    using True by (simp add: offerDHCP_supported Let_def)
next
  case False
  then show ?thesis by (simp add: offerDHCP_unsupported)
qed

theorem offerDHCP_boot_filename_witness:
  "supported FirmwareX86HTTP \<and> \<not> supported 7 \<and>
   reply_option (offerDHCP example_ParseIP example_IPString True
       (discover [EFI_X86_64_HTTP] [] [93 \<mapsto> [0, 16]]) ''10.0.0.1'' 8080 FirmwareX86HTTP)
     OptionBootfileName = Inr (Some (bytes_of ''http://10.0.0.1:8080/tftp/snp.efi'')) \<and>
   reply_option (offerDHCP example_ParseIP example_IPString True
       (discover [EFI_X86_64_HTTP] [] [93 \<mapsto> [0, 16]]) ''10.0.0.1'' 8080 7)
     OptionBootfileName = Inl (UnsupportedFirmwareType 7)"
proof -
  have s: "supported FirmwareX86HTTP" and u: "\<not> supported 7"
    by (simp_all add: supported_def firmware_defs)
  have a: "reply_option (offerDHCP example_ParseIP example_IPString True
       (discover [EFI_X86_64_HTTP] [] [93 \<mapsto> [0, 16]]) ''10.0.0.1'' 8080 FirmwareX86HTTP)
     OptionBootfileName = Inr (Some (bytes_of ''http://10.0.0.1:8080/tftp/snp.efi''))"
    using s offerDHCP_boot_filename [of FirmwareX86HTTP example_ParseIP example_IPString
        "discover [EFI_X86_64_HTTP] [] [93 \<mapsto> [0, 16]]" "''10.0.0.1''" 8080]
    by (auto simp: reply_option_def spec_boot_filename_def firmware_defs example_ParseIP_def
        example_IPString_def JoinHostPort_def Itoa_8080)
  have b: "reply_option (offerDHCP example_ParseIP example_IPString True
       (discover [EFI_X86_64_HTTP] [] [93 \<mapsto> [0, 16]]) ''10.0.0.1'' 8080 7)
     OptionBootfileName = Inl (UnsupportedFirmwareType 7)"
    using u by (simp add: offerDHCP_unsupported reply_option_def)
  from s u a b show ?thesis by blast
qed




lemma offerDHCP_copies:
  assumes a: "offerDHCP parseIP ipString entropy req apiHost apiPort fw = Inr resp"
  shows "Options resp OptionClassIdentifier =
     (case Options req OptionClassIdentifier of
     None \<Rightarrow> Some (bytes_of ''PXEClient'') | Some v \<Rightarrow> Some v) \<and>
   Options resp OptionClientMachineIdentifier = Options req OptionClientMachineIdentifier"
proof -
  from offerDHCP_Inr_D [OF a] have e: entropy and sup: "supported fw" by simp_all
  from a e sup obtain resp0 where r0: "NewReplyFromRequest True req
        [WithServerIP (parseIP apiHost), WithOptionCopied req OptionClientMachineIdentifier,
         WithOptionCopied req OptionClassIdentifier] = Inr resp0"
    and r: "resp = (let r = (if Options resp0 OptionClassIdentifier = None
                       then UpdateOption OptionClassIdentifier (bytes_of ''PXEClient'') resp0
                       else resp0);
                  r = (if plain_tftp fw
                       then UpdateOption OptionTFTPServerName
                              (bytes_of (ipString (parseIP apiHost))) r
                       else r)
              in UpdateOption OptionBootfileName
                   (bytes_of (spec_boot_filename (ipString (parseIP apiHost))
                      (JoinHostPort (ipString (parseIP apiHost)) (Itoa apiPort)) fw)) r)"
    by (auto simp: offerDHCP_supported)
  note f = NewReplyFromRequest_offer [OF r0]
  show ?thesis
    using f unfolding r
    by (simp add: Let_def) (simp add: option_defs split: option.splits)
qed

lemma offerDHCP_supported_replies:
  assumes "supported fw"
  shows "\<exists>r. offerDHCP parseIP ipString True req apiHost apiPort fw = Inr r"
proof -
  obtain resp0 where "NewReplyFromRequest True req
        [WithServerIP (parseIP apiHost), WithOptionCopied req OptionClientMachineIdentifier,
         WithOptionCopied req OptionClassIdentifier] = Inr resp0"
    using NewReplyFromRequest_cases(2) [of True] by blast
  then show ?thesis
    using assms by (simp add: offerDHCP_supported Let_def)
qed

text \<open>
  C9. In every constructed reply the vendor-class option is the request's when the
  request has one and \<^verbatim>\<open>PXEClient\<close> otherwise, so it is never absent; the client
  machine identifier is the request's, absent when absent there. For each of the six
  supported variants there is such a reply, whatever options the request carries.
\<close>

theorem offerDHCP_vendor_class:
  "(offerDHCP parseIP ipString entropy req apiHost apiPort fw = Inr resp \<longrightarrow>
      Options resp OptionClassIdentifier =
        (case Options req OptionClassIdentifier of
           None \<Rightarrow> Some (bytes_of ''PXEClient'') | Some v \<Rightarrow> Some v) \<and>
      Options resp OptionClientMachineIdentifier = Options req OptionClientMachineIdentifier) \<and>
   (supported fw \<longrightarrow>
      (\<exists>r. offerDHCP parseIP ipString True req apiHost apiPort fw = Inr r \<and>
         Options r OptionClassIdentifier =
           (case Options req OptionClassIdentifier of
              None \<Rightarrow> Some (bytes_of ''PXEClient'') | Some v \<Rightarrow> Some v) \<and>
         Options r OptionClientMachineIdentifier = Options req OptionClientMachineIdentifier))"
proof -
  have first: "Options resp OptionClassIdentifier =
        (case Options req OptionClassIdentifier of
           None \<Rightarrow> Some (bytes_of ''PXEClient'') | Some v \<Rightarrow> Some v) \<and>
      Options resp OptionClientMachineIdentifier = Options req OptionClientMachineIdentifier"
    if "offerDHCP parseIP ipString entropy req apiHost apiPort fw = Inr resp"
    using that by (rule offerDHCP_copies)
  have second: "\<exists>r. offerDHCP parseIP ipString True req apiHost apiPort fw = Inr r \<and>
         Options r OptionClassIdentifier =
           (case Options req OptionClassIdentifier of
              None \<Rightarrow> Some (bytes_of ''PXEClient'') | Some v \<Rightarrow> Some v) \<and>
         Options r OptionClientMachineIdentifier = Options req OptionClientMachineIdentifier"
    if "supported fw"
  proof -
    from that obtain r where r: "offerDHCP parseIP ipString True req apiHost apiPort fw = Inr r"
      using offerDHCP_supported_replies by blast
    from offerDHCP_copies [OF r] r show ?thesis by blast
  qed
  from first second show ?thesis by blast
qed

theorem offerDHCP_vendor_class_witness:
  "supported FirmwareARMEFI \<and>
   offerDHCP example_ParseIP example_IPString True
     (discover [EFI_ARM64] []
        [93 \<mapsto> [0, 11], 60 \<mapsto> bytes_of ''PXEClient:Arch:00011:UNDI:003000'',
         97 \<mapsto> 0 # replicate 16 7])
     ''10.0.0.1'' 8080 FirmwareARMEFI =
   Inr \<lparr>MessageType = MessageTypeNone, ClientArch = [], UserClass = [],
        ServerIPAddr = [0, 0, 0, 0, 0, 0, 0, 0, 0, 0, 255, 255, 10, 0, 0, 1],
        Options = [97 \<mapsto> 0 # replicate 16 7,
                   60 \<mapsto> bytes_of ''PXEClient:Arch:00011:UNDI:003000'',
                   66 \<mapsto> bytes_of ''10.0.0.1'', 67 \<mapsto> bytes_of ''snp-arm64.efi'']\<rparr> \<and>
   reply_option (offerDHCP example_ParseIP example_IPString True
     (discover [EFI_ARM64] []
        [93 \<mapsto> [0, 11], 60 \<mapsto> bytes_of ''PXEClient:Arch:00011:UNDI:003000'',
         97 \<mapsto> 0 # replicate 16 7])
     ''10.0.0.1'' 8080 FirmwareARMEFI) OptionClassIdentifier =
     Inr (Some (bytes_of ''PXEClient:Arch:00011:UNDI:003000'')) \<and>
   reply_option (offerDHCP example_ParseIP example_IPString True
     (discover [EFI_ARM64] []
        [93 \<mapsto> [0, 11], 60 \<mapsto> bytes_of ''PXEClient:Arch:00011:UNDI:003000'',
         97 \<mapsto> 0 # replicate 16 7])
     ''10.0.0.1'' 8080 FirmwareARMEFI) OptionClientMachineIdentifier =
     Inr (Some (0 # replicate 16 7)) \<and>
   offerDHCP example_ParseIP example_IPString True (discover [EFI_ARM64] [] [93 \<mapsto> [0, 11]])
     ''10.0.0.1'' 8080 FirmwareARMEFI =
   Inr \<lparr>MessageType = MessageTypeNone, ClientArch = [], UserClass = [],
        ServerIPAddr = [0, 0, 0, 0, 0, 0, 0, 0, 0, 0, 255, 255, 10, 0, 0, 1],
        Options = [60 \<mapsto> bytes_of ''PXEClient'', 66 \<mapsto> bytes_of ''10.0.0.1'',
                   67 \<mapsto> bytes_of ''snp-arm64.efi'']\<rparr> \<and>
   reply_option (offerDHCP example_ParseIP example_IPString True (discover [EFI_ARM64] [] [93 \<mapsto> [0, 11]])
     ''10.0.0.1'' 8080 FirmwareARMEFI) OptionClassIdentifier =
     Inr (Some (bytes_of ''PXEClient'')) \<and>
   reply_option (offerDHCP example_ParseIP example_IPString True (discover [EFI_ARM64] [] [93 \<mapsto> [0, 11]])
     ''10.0.0.1'' 8080 FirmwareARMEFI) OptionClientMachineIdentifier = Inr None"
proof -
  let ?req1 = "discover [EFI_ARM64] []
        [93 \<mapsto> [0, 11], 60 \<mapsto> bytes_of ''PXEClient:Arch:00011:UNDI:003000'',
         97 \<mapsto> 0 # replicate 16 7]"
  let ?req2 = "discover [EFI_ARM64] [] [93 \<mapsto> [0, 11]]"
  have s: "supported FirmwareARMEFI" by (simp add: supported_def)
  have a1: "offerDHCP example_ParseIP example_IPString True ?req1
     ''10.0.0.1'' 8080 FirmwareARMEFI =
   Inr \<lparr>MessageType = MessageTypeNone, ClientArch = [], UserClass = [],
        ServerIPAddr = [0, 0, 0, 0, 0, 0, 0, 0, 0, 0, 255, 255, 10, 0, 0, 1],
        Options = [97 \<mapsto> 0 # replicate 16 7,
                   60 \<mapsto> bytes_of ''PXEClient:Arch:00011:UNDI:003000'',
                   66 \<mapsto> bytes_of ''10.0.0.1'', 67 \<mapsto> bytes_of ''snp-arm64.efi'']\<rparr>"
    by (simp add: discover_def firmware_defs GetOneOption_def option_defs offerDHCP_def Let_def
      NewReplyFromRequest_def newPacket_def WithServerIP_def WithOptionCopied_def
      UpdateOption_def example_ParseIP_def example_IPString_def)
  have a2: "offerDHCP example_ParseIP example_IPString True ?req2
     ''10.0.0.1'' 8080 FirmwareARMEFI =
   Inr \<lparr>MessageType = MessageTypeNone, ClientArch = [], UserClass = [],
        ServerIPAddr = [0, 0, 0, 0, 0, 0, 0, 0, 0, 0, 255, 255, 10, 0, 0, 1],
        Options = [60 \<mapsto> bytes_of ''PXEClient'', 66 \<mapsto> bytes_of ''10.0.0.1'',
                   67 \<mapsto> bytes_of ''snp-arm64.efi'']\<rparr>"
    by (simp add: discover_def firmware_defs GetOneOption_def option_defs offerDHCP_def Let_def
      NewReplyFromRequest_def newPacket_def WithServerIP_def WithOptionCopied_def
      UpdateOption_def example_ParseIP_def example_IPString_def)
  note t1 = offerDHCP_vendor_class [of example_ParseIP example_IPString True ?req1
      "''10.0.0.1''" 8080 FirmwareARMEFI, THEN conjunct1, rule_format, OF a1]
  note t2 = offerDHCP_vendor_class [of example_ParseIP example_IPString True ?req2
      "''10.0.0.1''" 8080 FirmwareARMEFI, THEN conjunct1, rule_format, OF a2]
  have b1: "reply_option (offerDHCP example_ParseIP example_IPString True ?req1
     ''10.0.0.1'' 8080 FirmwareARMEFI) OptionClassIdentifier =
     Inr (Some (bytes_of ''PXEClient:Arch:00011:UNDI:003000''))"
    and c1: "reply_option (offerDHCP example_ParseIP example_IPString True ?req1
     ''10.0.0.1'' 8080 FirmwareARMEFI) OptionClientMachineIdentifier =
     Inr (Some (0 # replicate 16 7))"
    using t1 by (simp_all add: a1 reply_option_def) (simp_all add: discover_def option_defs)
  have b2: "reply_option (offerDHCP example_ParseIP example_IPString True ?req2
     ''10.0.0.1'' 8080 FirmwareARMEFI) OptionClassIdentifier =
     Inr (Some (bytes_of ''PXEClient''))"
    and c2: "reply_option (offerDHCP example_ParseIP example_IPString True ?req2
     ''10.0.0.1'' 8080 FirmwareARMEFI) OptionClientMachineIdentifier = Inr None"
    using t2 by (simp_all add: a2 reply_option_def) (simp_all add: discover_def option_defs)
  from s a1 b1 c1 a2 b2 c2 show ?thesis by blast
qed

subsection \<open>The packet handler\<close>

text \<open>
  C8. A packet that is not a Discover, or that has no option 93, only adds the line
  \<^verbatim>\<open>ignoring packet\<close> to the log: nothing is written to the connection.
\<close>

theorem handlePacket_ignores:
  "MessageType m \<noteq> MessageTypeDiscover \<or> Options m 93 = None \<Longrightarrow>
   handlePacket parseIP ipString entropy apiHost apiPort peer m w =
     w\<lparr>logged := logged w @ [(Info, ''ignoring packet'')]\<rparr> \<and>
   written (handlePacket parseIP ipString entropy apiHost apiPort peer m w) = written w"
  by (auto simp: handlePacket_def isBootDHCP_def log_line_def)

theorem handlePacket_ignores_witness:
  "MessageType (discover [] [] Map.empty) = MessageTypeDiscover \<and>
   Options (discover [] [] Map.empty) 93 = None \<and>
   handlePacket example_ParseIP example_IPString True ''10.0.0.1'' 8080 (1::nat)
     (discover [] [] Map.empty) \<lparr>broken = False, written = [], logged = []\<rparr> =
   \<lparr>broken = False, written = [], logged = [(Info, ''ignoring packet'')]\<rparr> \<and>
   (3::MessageType) \<noteq> MessageTypeDiscover \<and>
   written (handlePacket example_ParseIP example_IPString True ''10.0.0.1'' 8080 (1::nat)
     ((discover [EFI_X86_64] [] [93 \<mapsto> [0, 7]])\<lparr>MessageType := 3, Options := [53 \<mapsto> [3], 93 \<mapsto> [0, 7]]\<rparr>)
     \<lparr>broken = False, written = [], logged = []\<rparr>) = []"
  using handlePacket_ignores [of "discover [] [] Map.empty" example_ParseIP
      example_IPString True "''10.0.0.1''" 8080 "1::nat"
      "\<lparr>broken = False, written = [], logged = []\<rparr>"]
    handlePacket_ignores [of "(discover [EFI_X86_64] [] [93 \<mapsto> [0, 7]])\<lparr>MessageType := 3, Options := [53 \<mapsto> [3], 93 \<mapsto> [0, 7]]\<rparr>"
      example_ParseIP example_IPString True "''10.0.0.1''" 8080 "1::nat"
      "\<lparr>broken = False, written = [], logged = []\<rparr>"]
  by (simp add: discover_def MessageTypeDiscover_def)

section \<open>Theorems about the patcher\<close>

lemma Index_nat_Some_D:
  "Index_nat xs sep = Some i \<Longrightarrow>
   i + length sep \<le> length xs \<and> take (length sep) (drop i xs) = sep"
proof (induction xs arbitrary: i)
  case Nil
  then show ?case by (simp split: if_splits)
next
  case (Cons x xs)
  show ?case
  proof (cases "prefix sep (x # xs)")
    case True
    with Cons.prems have "i = 0" by simp
    moreover from True obtain zs where "x # xs = sep @ zs" by (auto simp: prefix_def)
    ultimately show ?thesis by (metis add_0 append_eq_conv_conj drop0 le_add1 length_append)
  next
    case False
    with Cons.prems obtain j where j: "Index_nat xs sep = Some j" and i: "i = Suc j"
      by auto
    from Cons.IH [OF j] show ?thesis by (simp add: i)
  qed
qed

lemma Index_nat_None_iff: "Index_nat xs sep = None \<longleftrightarrow> \<not> sublist sep xs"
  by (induction xs) (auto simp: sublist_Cons_right)

lemma Index_eq_int: "Index xs sep = int i \<longleftrightarrow> Index_nat xs sep = Some i"
  by (simp add: Index_def split: option.splits)

lemma Index_eq_minus_one: "Index xs sep = - 1 \<longleftrightarrow> Index_nat xs sep = None"
  by (simp add: Index_def split: option.splits)

lemma Index_eq_minus_one_iff: "Index xs sep = - 1 \<longleftrightarrow> \<not> sublist sep xs"
  by (simp add: Index_eq_minus_one Index_nat_None_iff)

lemma sublist_append_replicate:
  assumes "sublist sep (xs @ replicate n c)" and "c \<notin> set sep" and "sep \<noteq> []"
  shows "sublist sep xs"
  using assms(1)
proof (induction n)
  case 0
  then show ?case by simp
next
  case (Suc n)
  have "xs @ replicate (Suc n) c = (xs @ replicate n c) @ [c]"
    by (simp add: replicate_append_same)
  with Suc.prems have "sublist sep ((xs @ replicate n c) @ [c])" by simp
  then have "suffix sep ((xs @ replicate n c) @ [c]) \<or> sublist sep (xs @ replicate n c)"
    by (simp only: sublist_snoc)
  then show ?case
  proof
    assume "suffix sep ((xs @ replicate n c) @ [c])"
    then obtain ps where "(xs @ replicate n c) @ [c] = ps @ sep" by (auto simp: suffix_def)
    with assms(3) have "last sep = c" by (metis last_appendR last_snoc)
    with assms(2,3) show ?thesis using last_in_set by blast
  next
    assume "sublist sep (xs @ replicate n c)"
    then show ?thesis by (rule Suc.IH)
  qed
qed

lemma Repeat_single: "0 \<le> n \<Longrightarrow> Repeat [c] n = replicate (nat n) c"
  by (induction "nat n" arbitrary: n) (auto simp: Repeat_def)

lemma copy_slice_exact:
  "length src = end' - start \<Longrightarrow> start \<le> end' \<Longrightarrow>
   copy_slice contents start end' src = take start contents @ src @ drop end' contents"
  by (simp add: copy_slice_def)


lemma patchScript_unfold:
  assumes src: "files fs source = Some contents"
    and s: "Index contents placeholderStart = int s"
    and e: "Index contents placeholderEnd = int e"
    and se: "s \<le> e"
  shows "patchScript source destination script fs =
     (if int (length script) > int e + int (length placeholderEnd) - int s
      then (Some (ScriptTooLarge (int (length script))
                   (int e + int (length placeholderEnd) - int s)), fs)
      else (case os_MkdirAll (Dir destination) fs of
              (Some err, fs1) \<Rightarrow> (Some err, fs1)
            | (None, fs1) \<Rightarrow>
                os_WriteFile destination
                  (copy_slice contents s (nat (int e + int (length placeholderEnd)))
                     (script @ Repeat [10]
                        (int e + int (length placeholderEnd) - int s - int (length script))))
                  fs1))"
  using se by (simp add: patchScript_def os_ReadFile_def src s e Let_def)

lemma patchScript_checks_passed:
  assumes src: "files fs source = Some contents"
    and s: "Index contents placeholderStart = int s"
    and e: "Index contents placeholderEnd = int e"
    and se: "s \<le> e"
    and fit: "length script \<le> e + length placeholderEnd - s"
  shows "patchScript source destination script fs =
     (case os_MkdirAll (Dir destination) fs of
        (Some err, fs1) \<Rightarrow> (Some err, fs1)
      | (None, fs1) \<Rightarrow> os_WriteFile destination (patched contents s e script) fs1)"
proof -
  have c: "\<not> int (length script) > int e + int (length placeholderEnd) - int s"
    using se fit by linarith
  have "0 \<le> int e + int (length placeholderEnd) - int s - int (length script)"
    using se fit by linarith
  then have rep: "Repeat [10] (int e + int (length placeholderEnd) - int s - int (length script)) =
      replicate (nat (int e + int (length placeholderEnd) - int s - int (length script))) (10::byte)"
    by (rule Repeat_single)
  have n0: "nat (int e + int (length placeholderEnd) - int s - int (length script)) =
      e + length placeholderEnd - s - length script"
    using se fit by linarith
  have n2: "nat (int e + int (length placeholderEnd)) = e + length placeholderEnd"
    by linarith
  have cp: "copy_slice contents s (e + length placeholderEnd)
      (script @ replicate (e + length placeholderEnd - s - length script) 10) =
      patched contents s e script"
    using se fit by (subst copy_slice_exact) (simp_all add: patched_def)
  show ?thesis
    by (simp only: patchScript_unfold [OF src s e se] c if_False rep n0 n2 cp)
qed

lemma patchScript_too_large:
  assumes src: "files fs source = Some contents"
    and s: "Index contents placeholderStart = int s"
    and e: "Index contents placeholderEnd = int e"
    and se: "s \<le> e"
    and big: "e + length placeholderEnd - s < length script"
  shows "patchScript source destination script fs =
     (Some (ScriptTooLarge (int (length script)) (int (e + length placeholderEnd - s))), fs)"
proof -
  have c: "int (length script) > int e + int (length placeholderEnd) - int s"
    using se big by linarith
  have eq: "int e + int (length placeholderEnd) - int s = int (e + length placeholderEnd - s)"
    using se by linarith
  have "patchScript source destination script fs =
     (Some (ScriptTooLarge (int (length script))
             (int e + int (length placeholderEnd) - int s)), fs)"
    by (simp only: patchScript_unfold [OF src s e se] c if_True)
  then show ?thesis by (simp only: eq)
qed

lemma length_patched:
  assumes "Index contents placeholderEnd = int e" "s \<le> e"
    "length script \<le> e + length placeholderEnd - s"
  shows "length (patched contents s e script) = length contents"
proof -
  from assms(1) have "e + length placeholderEnd \<le> length contents"
    using Index_nat_Some_D [of contents placeholderEnd e] by (simp add: Index_eq_int)
  with assms(2,3) show ?thesis by (simp add: patched_def)
qed


lemma placeholderStart_bytes:
  "placeholderStart =
     [35, 32, 42, 80, 76, 65, 67, 69, 72, 79, 76, 68, 69, 82, 32, 83, 84, 65, 82, 84, 42]"
  by (simp add: placeholderStart_def bytes_of_def)

lemma placeholderEnd_bytes:
  "placeholderEnd =
     [35, 32, 42, 80, 76, 65, 67, 69, 72, 79, 76, 68, 69, 82, 32, 69, 78, 68, 42]"
  by (simp add: placeholderEnd_def bytes_of_def)

lemma length_placeholders:
  "length placeholderStart = 21" "length placeholderEnd = 19"
  by (simp_all add: placeholderStart_bytes placeholderEnd_bytes)

lemma newline_not_in_placeholders:
  "10 \<notin> set placeholderStart" "10 \<notin> set placeholderEnd"
  "placeholderStart \<noteq> []" "placeholderEnd \<noteq> []"
  by (simp_all add: placeholderStart_bytes placeholderEnd_bytes)

text \<open>The first end marker at or after the first start marker lies wholly behind it.\<close>

lemma markers_do_not_overlap:
  assumes s: "Index contents placeholderStart = int s"
    and e: "Index contents placeholderEnd = int e"
    and se: "s \<le> e"
  shows "s + length placeholderStart \<le> e"
proof (rule ccontr)
  assume "\<not> s + length placeholderStart \<le> e"
  then have d: "e - s < 21" by (simp add: length_placeholders)
  from s have ps: "take 21 (drop s contents) = placeholderStart"
    and ls: "s + 21 \<le> length contents"
    using Index_nat_Some_D [of contents placeholderStart s]
    by (simp_all add: Index_eq_int length_placeholders)
  from e have pe: "take 19 (drop e contents) = placeholderEnd"
    and le: "e + 19 \<le> length contents"
    using Index_nat_Some_D [of contents placeholderEnd e]
    by (simp_all add: Index_eq_int length_placeholders)
  have "placeholderEnd ! 0 = take 19 (drop e contents) ! 0" by (simp only: pe)
  also have "\<dots> = contents ! e" using le by simp
  finally have e0: "contents ! e = 35" by (simp add: placeholderEnd_bytes)
  have "placeholderStart ! (e - s) = take 21 (drop s contents) ! (e - s)" by (simp only: ps)
  also have "\<dots> = contents ! e" using d ls se by simp
  finally have sd: "placeholderStart ! (e - s) = 35" using e0 by simp
  show False
  proof (cases "e = s")
    case True
    have "placeholderEnd = take 19 (take 21 (drop s contents))"
      using pe True by simp
    then have "placeholderEnd = take 19 placeholderStart" by (simp only: ps)
    then show False by (simp add: placeholderStart_bytes placeholderEnd_bytes)
  next
    case False
    with se have pos: "0 < e - s" by simp
    have "1 + (e - s - 1) = e - s" using pos by simp
    then have "drop 1 placeholderStart ! (e - s - 1) = placeholderStart ! (e - s)"
      using d by (simp only: nth_drop length_placeholders)
    moreover have "e - s - 1 < length (drop 1 placeholderStart)"
      using pos d by (simp add: length_placeholders)
    ultimately have "placeholderStart ! (e - s) \<in> set (drop 1 placeholderStart)"
      by (metis nth_mem)
    with sd show False by (simp add: placeholderStart_bytes)
  qed
qed

text \<open>
  C3. When the source holds both markers, the first start marker not after the first end
  marker, and the script fits the window, the patch succeeds (the destination being
  writable) and the destination has the length of the source, agrees with the source
  before the window and from its end on, and holds in the window the script followed by
  newline bytes up to the window's length.
\<close>

theorem patchScript_frame:
  assumes "files fs source = Some contents"
    and "Index contents placeholderStart = int s"
    and "Index contents placeholderEnd = int e"
    and "s \<le> e"
    and "length script \<le> e + length placeholderEnd - s"
    and "Dir destination \<notin> denied fs" and "destination \<notin> denied fs"
  shows "\<exists>out. fst (patchScript source destination script fs) = None \<and>
     files (snd (patchScript source destination script fs)) destination = Some out \<and>
     length out = length contents \<and>
     take s out = take s contents \<and>
     drop (e + length placeholderEnd) out = drop (e + length placeholderEnd) contents \<and>
     take (e + length placeholderEnd - s) (drop s out) =
       script @ replicate (e + length placeholderEnd - s - length script) 10 \<and>
     (\<forall>i < length contents. i < s \<or> e + length placeholderEnd \<le> i \<longrightarrow> out ! i = contents ! i)"
proof -
  let ?W = "e + length placeholderEnd - s"
  let ?out = "patched contents s e script"
  have bound: "e + length placeholderEnd \<le> length contents"
    using assms(3) Index_nat_Some_D [of contents placeholderEnd e] by (simp add: Index_eq_int)
  have run: "patchScript source destination script fs =
      (None, fs\<lparr>dirs := insert (Dir destination) (dirs fs),
                 files := (files fs)(destination \<mapsto> ?out)\<rparr>)"
    using assms(6,7)
    by (simp add: patchScript_checks_passed [OF assms(1-5)] os_MkdirAll_def os_WriteFile_def)
  have len: "length ?out = length contents"
    using assms(3,4,5) by (rule length_patched)
  have pre: "take s ?out = take s contents"
    using bound assms(4) by (simp add: patched_def)
  have mid: "drop s ?out = script @ replicate (?W - length script) 10 @
      drop (e + length placeholderEnd) contents"
    using bound assms(4) by (simp add: patched_def)
  have win: "take ?W (drop s ?out) = script @ replicate (?W - length script) 10"
    using assms(5) by (simp add: mid)
  have post: "drop (e + length placeholderEnd) ?out = drop (e + length placeholderEnd) contents"
  proof -
    have "drop (e + length placeholderEnd) ?out = drop ?W (drop s ?out)"
      using assms(4) by (simp add: add.commute)
    also have "\<dots> = drop (e + length placeholderEnd) contents"
      using assms(5) by (simp add: mid)
    finally show ?thesis .
  qed
  have outside: "out_i = contents ! i"
    if "i < length contents" "i < s \<or> e + length placeholderEnd \<le> i" "out_i = ?out ! i"
    for i out_i
  proof (cases "i < s")
    case True
    have "?out ! i = take s ?out ! i" using True by simp
    also have "\<dots> = contents ! i" using True by (simp add: pre)
    finally show ?thesis using that(3) by simp
  next
    case False
    with that(2) have ge: "e + length placeholderEnd \<le> i" by simp
    have "?out ! i = drop (e + length placeholderEnd) ?out ! (i - (e + length placeholderEnd))"
      using ge len that(1) by simp
    also have "\<dots> = contents ! i"
      using ge that(1) by (simp add: post)
    finally show ?thesis using that(3) by simp
  qed
  show ?thesis
    apply (rule exI [of _ ?out])
    using len pre post win outside by (simp add: run)
qed


lemma Index_in_example:
  "Index (bytes_of ''AB'' @ placeholderStart @ bytes_of ''xx'' @ placeholderEnd @ bytes_of ''Z'')
     placeholderStart = int 2"
  "Index (bytes_of ''AB'' @ placeholderStart @ bytes_of ''xx'' @ placeholderEnd @ bytes_of ''Z'')
     placeholderEnd = int 25"
  by (simp_all add: Index_def placeholderStart_bytes placeholderEnd_bytes bytes_of_def)

lemma Index_two_end_markers:
  "Index (placeholderStart @ placeholderEnd @ placeholderEnd) placeholderStart = int 0"
  "Index (placeholderStart @ placeholderEnd @ placeholderEnd) placeholderEnd = int 21"
  by (simp_all add: Index_def placeholderStart_bytes placeholderEnd_bytes)

lemma Index_after_newlines:
  "Index (replicate 40 10 @ placeholderEnd) placeholderEnd = 40"
  by code_simp

lemma Dir_examples:
  "Dir ''/var/lib/tftp/snp.efi'' = ''/var/lib/tftp''" "Dir ''dst'' = ''.''"
  by code_simp+

theorem patchScript_frame_witness:
  "files (single_file ''src''
      (bytes_of ''AB'' @ placeholderStart @ bytes_of ''xx'' @ placeholderEnd @ bytes_of ''Z''))
     ''src'' =
     Some (bytes_of ''AB'' @ placeholderStart @ bytes_of ''xx'' @ placeholderEnd @ bytes_of ''Z'') \<and>
   Index (bytes_of ''AB'' @ placeholderStart @ bytes_of ''xx'' @ placeholderEnd @ bytes_of ''Z'')
     placeholderStart = int 2 \<and>
   Index (bytes_of ''AB'' @ placeholderStart @ bytes_of ''xx'' @ placeholderEnd @ bytes_of ''Z'')
     placeholderEnd = int 25 \<and>
   length (bytes_of ''#!ipxe'') \<le> 25 + length placeholderEnd - 2 \<and>
   files (snd (patchScript ''src'' ''/var/lib/tftp/snp.efi'' (bytes_of ''#!ipxe'')
      (single_file ''src''
         (bytes_of ''AB'' @ placeholderStart @ bytes_of ''xx'' @ placeholderEnd @ bytes_of ''Z''))))
     ''/var/lib/tftp/snp.efi'' =
     Some (bytes_of ''AB'' @ bytes_of ''#!ipxe'' @ replicate 36 10 @ bytes_of ''Z'') \<and>
   length (bytes_of ''AB'' @ bytes_of ''#!ipxe'' @ replicate 36 10 @ bytes_of ''Z'') =
     length (bytes_of ''AB'' @ placeholderStart @ bytes_of ''xx'' @ placeholderEnd @ bytes_of ''Z'')"
proof -
  let ?c = "bytes_of ''AB'' @ placeholderStart @ bytes_of ''xx'' @ placeholderEnd @ bytes_of ''Z''"
  let ?fs = "single_file ''src'' ?c"
  let ?r = "patchScript ''src'' ''/var/lib/tftp/snp.efi'' (bytes_of ''#!ipxe'') ?fs"
  have h1: "files ?fs ''src'' = Some ?c" by (simp add: single_file_def)
  have h4: "(2::nat) \<le> 25" by simp
  have h5: "length (bytes_of ''#!ipxe'') \<le> 25 + length placeholderEnd - 2"
    by (simp add: bytes_of_def length_placeholders)
  have h6: "Dir ''/var/lib/tftp/snp.efi'' \<notin> denied ?fs" "''/var/lib/tftp/snp.efi'' \<notin> denied ?fs"
    by (simp_all add: single_file_def)
  have "?r = os_WriteFile ''/var/lib/tftp/snp.efi'' (patched ?c 2 25 (bytes_of ''#!ipxe''))
      (?fs\<lparr>dirs := insert (Dir ''/var/lib/tftp/snp.efi'') (dirs ?fs)\<rparr>)"
    using h6(1)
    by (simp only: patchScript_checks_passed [OF h1 Index_in_example h4 h5] os_MkdirAll_def
        if_False prod.case option.case)
  then have v: "files (snd ?r) ''/var/lib/tftp/snp.efi'' =
      Some (patched ?c 2 25 (bytes_of ''#!ipxe''))"
    by (simp add: os_WriteFile_def single_file_def)
  have pv: "patched ?c 2 25 (bytes_of ''#!ipxe'') =
      bytes_of ''AB'' @ bytes_of ''#!ipxe'' @ replicate 36 10 @ bytes_of ''Z''"
    by (simp add: patched_def bytes_of_def length_placeholders)
  from patchScript_frame [OF h1 Index_in_example h4 h5 h6]
  obtain out where o: "files (snd ?r) ''/var/lib/tftp/snp.efi'' = Some out"
    and l: "length out = length ?c"
    by blast
  from o v pv have "out = bytes_of ''AB'' @ bytes_of ''#!ipxe'' @ replicate 36 10 @ bytes_of ''Z''"
    by simp
  with o l h1 h5 Index_in_example show ?thesis by simp
qed

text \<open>
  C4. With a placeholder window in the source, a script longer than the window makes the
  patch fail with the size error and leaves the file system as it was: the destination
  is not created, nor written, nor truncated. A script of exactly the window's length is
  accepted and fills the window with no padding.
\<close>

theorem patchScript_script_too_large:
  assumes "files fs source = Some contents"
    and "Index contents placeholderStart = int s"
    and "Index contents placeholderEnd = int e"
    and "s \<le> e"
  shows "(e + length placeholderEnd - s < length script \<longrightarrow>
      patchScript source destination script fs =
        (Some (ScriptTooLarge (int (length script)) (int (e + length placeholderEnd - s))), fs)) \<and>
     (length script = e + length placeholderEnd - s \<and>
      Dir destination \<notin> denied fs \<and> destination \<notin> denied fs \<longrightarrow>
      patchScript source destination script fs =
        (None, fs\<lparr>dirs := insert (Dir destination) (dirs fs),
                   files := (files fs)(destination \<mapsto>
                     take s contents @ script @ drop (e + length placeholderEnd) contents)\<rparr>))"
proof (intro conjI impI)
  assume "e + length placeholderEnd - s < length script"
  with assms show "patchScript source destination script fs =
      (Some (ScriptTooLarge (int (length script)) (int (e + length placeholderEnd - s))), fs)"
    by (rule patchScript_too_large)
next
  assume a: "length script = e + length placeholderEnd - s \<and>
      Dir destination \<notin> denied fs \<and> destination \<notin> denied fs"
  then have fit: "length script \<le> e + length placeholderEnd - s" by simp
  have "patched contents s e script =
      take s contents @ script @ drop (e + length placeholderEnd) contents"
    using a by (simp add: patched_def)
  then show "patchScript source destination script fs =
      (None, fs\<lparr>dirs := insert (Dir destination) (dirs fs),
                 files := (files fs)(destination \<mapsto>
                   take s contents @ script @ drop (e + length placeholderEnd) contents)\<rparr>)"
    using a
    by (simp add: patchScript_checks_passed [OF assms fit] os_MkdirAll_def os_WriteFile_def)
qed

theorem patchScript_script_too_large_witness:
  "patchScript ''src'' ''dst'' (replicate 41 0)
     (single_file ''src'' (placeholderStart @ placeholderEnd @ placeholderEnd)) =
     (Some (ScriptTooLarge 41 40),
      single_file ''src'' (placeholderStart @ placeholderEnd @ placeholderEnd)) \<and>
   patchScript ''src'' ''dst'' (replicate 40 0)
     (single_file ''src'' (placeholderStart @ placeholderEnd @ placeholderEnd)) =
     (None, \<lparr>files = [''src'' \<mapsto> placeholderStart @ placeholderEnd @ placeholderEnd,
                       ''dst'' \<mapsto> replicate 40 0 @ placeholderEnd],
             dirs = {''.''}, denied = {}\<rparr>)"
proof -
  let ?c = "placeholderStart @ placeholderEnd @ placeholderEnd"
  have h1: "files (single_file ''src'' ?c) ''src'' = Some ?c" by (simp add: single_file_def)
  have h4: "(0::nat) \<le> 21" by simp
  note t = patchScript_script_too_large [OF h1 Index_two_end_markers h4]
  have a: "patchScript ''src'' ''dst'' (replicate 41 0) (single_file ''src'' ?c) =
     (Some (ScriptTooLarge 41 40), single_file ''src'' ?c)"
    using t [of "replicate 41 0" "''dst''"] by (simp add: length_placeholders)
  have b: "patchScript ''src'' ''dst'' (replicate 40 0) (single_file ''src'' ?c) =
     (None, \<lparr>files = [''src'' \<mapsto> ?c, ''dst'' \<mapsto> replicate 40 0 @ placeholderEnd],
             dirs = {''.''}, denied = {}\<rparr>)"
    using t [of "replicate 40 0" "''dst''"]
    by (simp add: length_placeholders single_file_def Dir_examples)
  from a b show ?thesis by simp
qed

text \<open>
  C10 (as amended). The window is marker-inclusive: the first end marker lies wholly
  behind the first start marker, the window runs from the first byte of the one to the
  last byte of the other, the patch is accepted exactly when the script is no longer
  than that, and the destination holds the script and its newline padding in place of
  it. The window of the destination contains no marker when the script contains none.
\<close>

theorem patchScript_window_marker_inclusive:
  assumes "files fs source = Some contents"
    and "Index contents placeholderStart = int s"
    and "Index contents placeholderEnd = int e"
    and "s \<le> e"
    and "Dir destination \<notin> denied fs" and "destination \<notin> denied fs"
  shows "s + length placeholderStart \<le> e \<and>
     (fst (patchScript source destination script fs) = None \<longleftrightarrow>
        length script \<le> e + length placeholderEnd - s) \<and>
     (length script \<le> e + length placeholderEnd - s \<longrightarrow>
        files (snd (patchScript source destination script fs)) destination =
          Some (take s contents @
                (script @ replicate (e + length placeholderEnd - s - length script) 10) @
                drop (e + length placeholderEnd) contents) \<and>
        (Index script placeholderStart = - 1 \<and> Index script placeholderEnd = - 1 \<longrightarrow>
           Index (script @ replicate (e + length placeholderEnd - s - length script) 10)
             placeholderStart = - 1 \<and>
           Index (script @ replicate (e + length placeholderEnd - s - length script) 10)
             placeholderEnd = - 1))"
proof -
  let ?W = "e + length placeholderEnd - s"
  have m: "s + length placeholderStart \<le> e"
    using assms(2,3,4) by (rule markers_do_not_overlap)
  have ok: "patchScript source destination script fs =
      (None, fs\<lparr>dirs := insert (Dir destination) (dirs fs),
                 files := (files fs)(destination \<mapsto> patched contents s e script)\<rparr>)"
    if fit: "length script \<le> ?W"
  proof -
    have mk: "os_MkdirAll (Dir destination) fs =
        (None, fs\<lparr>dirs := insert (Dir destination) (dirs fs)\<rparr>)"
      using assms(5) by (simp add: os_MkdirAll_def)
    have wr: "os_WriteFile destination (patched contents s e script)
        (fs\<lparr>dirs := insert (Dir destination) (dirs fs)\<rparr>) =
        (None, fs\<lparr>dirs := insert (Dir destination) (dirs fs),
                   files := (files fs)(destination \<mapsto> patched contents s e script)\<rparr>)"
      using assms(6) by (simp add: os_WriteFile_def)
    show ?thesis
      by (simp only: patchScript_checks_passed [OF assms(1-4) fit] mk wr prod.case option.case)
  qed
  have iff: "fst (patchScript source destination script fs) = None \<longleftrightarrow> length script \<le> ?W"
  proof (cases "length script \<le> ?W")
    case True
    from ok [OF True] True show ?thesis by simp
  next
    case False
    then have "?W < length script" by simp
    from patchScript_too_large [OF assms(1-4) this] False show ?thesis by simp
  qed
  have out: "files (snd (patchScript source destination script fs)) destination =
      Some (take s contents @ (script @ replicate (?W - length script) 10) @
            drop (e + length placeholderEnd) contents)"
    if fit: "length script \<le> ?W"
    using ok [OF fit] by (simp add: patched_def)
  have clean: "Index (script @ replicate n 10) mk = - 1"
    if "Index script mk = - 1" "10 \<notin> set mk" "mk \<noteq> []" for mk :: "byte list" and n
  proof -
    from that(1) have "\<not> sublist mk script" by (simp add: Index_eq_minus_one_iff)
    moreover have "sublist mk script" if "sublist mk (script @ replicate n 10)"
      using that \<open>10 \<notin> set mk\<close> \<open>mk \<noteq> []\<close> by (rule sublist_append_replicate)
    ultimately have "\<not> sublist mk (script @ replicate n 10)" by blast
    then show ?thesis by (simp add: Index_eq_minus_one_iff)
  qed
  have c1: "Index (script @ replicate (?W - length script) 10) placeholderStart = - 1"
    if "Index script placeholderStart = - 1"
    using that newline_not_in_placeholders(1,3) by (rule clean)
  have c2: "Index (script @ replicate (?W - length script) 10) placeholderEnd = - 1"
    if "Index script placeholderEnd = - 1"
    using that newline_not_in_placeholders(2,4) by (rule clean)
  from m iff out c1 c2 show ?thesis by blast
qed

theorem patchScript_window_marker_inclusive_witness:
  "files (single_file ''src'' (placeholderStart @ placeholderEnd @ placeholderEnd)) ''src'' =
     Some (placeholderStart @ placeholderEnd @ placeholderEnd) \<and>
   Index (placeholderStart @ placeholderEnd @ placeholderEnd) placeholderStart = int 0 \<and>
   Index (placeholderStart @ placeholderEnd @ placeholderEnd) placeholderEnd = int 21 \<and>
   0 + length placeholderStart \<le> (21::nat) \<and>
   length (bytes_of ''boot'') \<le> 21 + length placeholderEnd - 0 \<and>
   fst (patchScript ''src'' ''dst'' (bytes_of ''boot'')
     (single_file ''src'' (placeholderStart @ placeholderEnd @ placeholderEnd))) = None \<and>
   files (snd (patchScript ''src'' ''dst'' (bytes_of ''boot'')
     (single_file ''src'' (placeholderStart @ placeholderEnd @ placeholderEnd)))) ''dst'' =
     Some (bytes_of ''boot'' @ replicate 36 10 @ placeholderEnd)"
proof -
  let ?c = "placeholderStart @ placeholderEnd @ placeholderEnd"
  have h1: "files (single_file ''src'' ?c) ''src'' = Some ?c" by (simp add: single_file_def)
  have h4: "(0::nat) \<le> 21" by simp
  have h5: "Dir ''dst'' \<notin> denied (single_file ''src'' ?c)"
    "''dst'' \<notin> denied (single_file ''src'' ?c)"
    by (simp_all add: single_file_def)
  have fit: "length (bytes_of ''boot'') \<le> 21 + length placeholderEnd - 0"
    by (simp add: bytes_of_def length_placeholders)
  note t = patchScript_window_marker_inclusive [OF h1 Index_two_end_markers h4 h5,
      of "bytes_of ''boot''"]
  from t have a: "0 + length placeholderStart \<le> (21::nat)" by blast
  from t fit have b: "fst (patchScript ''src'' ''dst'' (bytes_of ''boot'')
      (single_file ''src'' ?c)) = None" by blast
  from t fit have "files (snd (patchScript ''src'' ''dst'' (bytes_of ''boot'')
      (single_file ''src'' ?c))) ''dst'' =
      Some (take 0 ?c @ (bytes_of ''boot'' @
        replicate (21 + length placeholderEnd - 0 - length (bytes_of ''boot'')) 10) @
        drop (21 + length placeholderEnd) ?c)" by blast
  then have c: "files (snd (patchScript ''src'' ''dst'' (bytes_of ''boot'')
      (single_file ''src'' ?c))) ''dst'' =
      Some (bytes_of ''boot'' @ replicate 36 10 @ placeholderEnd)"
    by (simp add: length_placeholders bytes_of_def)
  from h1 Index_two_end_markers a fit b c show ?thesis by blast
qed

text \<open>
  C10 (as stated). The destination can contain a marker that the script does not: the
  source may hold one behind the window. Here the source has a second end marker and
  the script is empty.
\<close>

theorem patchScript_marker_survives:
  "Index [] placeholderStart = - 1 \<and> Index [] placeholderEnd = - 1 \<and>
   patchScript ''src'' ''dst'' []
     (single_file ''src'' (placeholderStart @ placeholderEnd @ placeholderEnd)) =
     (None, \<lparr>files = [''src'' \<mapsto> placeholderStart @ placeholderEnd @ placeholderEnd,
                       ''dst'' \<mapsto> replicate 40 10 @ placeholderEnd],
             dirs = {''.''}, denied = {}\<rparr>) \<and>
   Index (replicate 40 10 @ placeholderEnd) placeholderEnd = 40"
proof -
  let ?c = "placeholderStart @ placeholderEnd @ placeholderEnd"
  have h1: "files (single_file ''src'' ?c) ''src'' = Some ?c" by (simp add: single_file_def)
  have h4: "(0::nat) \<le> 21" by simp
  have h5: "length ([]::byte list) \<le> 21 + length placeholderEnd - 0" by simp
  have a: "Index [] placeholderStart = - 1" "Index [] placeholderEnd = - 1"
    by (simp_all add: Index_def newline_not_in_placeholders)
  have b: "patchScript ''src'' ''dst'' [] (single_file ''src'' ?c) =
     (None, \<lparr>files = [''src'' \<mapsto> ?c, ''dst'' \<mapsto> replicate 40 10 @ placeholderEnd],
             dirs = {''.''}, denied = {}\<rparr>)"
    by (subst patchScript_checks_passed [OF h1 Index_two_end_markers h4 h5])
       (simp add: os_MkdirAll_def os_WriteFile_def patched_def single_file_def Dir_examples
        length_placeholders)
  from a b Index_after_newlines show ?thesis by simp
qed

section \<open>Theorems about the TFTP server\<close>


lemma is_sep_slash [simp]: "is_sep CHR ''/''"
  by (simp add: is_sep_def)

lemma real_element_plain: "real_element e \<Longrightarrow> plain e"
  by (simp add: real_element_def plain_def)

lemma takeWhile_not_sep_plain: "\<not> is_sep c \<Longrightarrow> plain (takeWhile (\<lambda>x. \<not> is_sep x) (c # cs))"
  by (auto simp: plain_def is_sep_def dest: set_takeWhileD)

lemma elements_plain: "\<forall>e \<in> set (elements p). plain e"
  by (induction p rule: elements.induct) (auto simp: takeWhile_not_sep_plain simp del: takeWhile.simps)

lemma elements_sep_Cons [simp]: "elements (CHR ''/'' # p) = elements p"
  by (simp add: is_sep_def)

lemma takeWhile_before_sep:
  "takeWhile (\<lambda>x. \<not> is_sep x) (xs @ CHR ''/'' # ys) = takeWhile (\<lambda>x. \<not> is_sep x) xs"
  by (induction xs) (simp_all add: is_sep_def)

lemma dropWhile_before_sep:
  "dropWhile (\<lambda>x. \<not> is_sep x) (xs @ CHR ''/'' # ys) =
   dropWhile (\<lambda>x. \<not> is_sep x) xs @ CHR ''/'' # ys"
  by (induction xs) (simp_all add: is_sep_def)

lemma elements_append_sep: "elements (a @ CHR ''/'' # b) = elements a @ elements b"
proof (induction a rule: elements.induct)
  case 1
  show ?case by (simp add: is_sep_def)
next
  case (2 c cs)
  show ?case
  proof (cases "is_sep c")
    case True
    with 2 show ?thesis by simp
  next
    case False
    have "elements ((c # cs) @ CHR ''/'' # b) =
        takeWhile (\<lambda>x. \<not> is_sep x) (c # cs @ CHR ''/'' # b) #
        elements (dropWhile (\<lambda>x. \<not> is_sep x) (cs @ CHR ''/'' # b))"
      using False by simp
    also have "takeWhile (\<lambda>x. \<not> is_sep x) (c # cs @ CHR ''/'' # b) =
        takeWhile (\<lambda>x. \<not> is_sep x) (c # cs)"
      using takeWhile_before_sep [of "c # cs" b] by simp
    also have "elements (dropWhile (\<lambda>x. \<not> is_sep x) (cs @ CHR ''/'' # b)) =
        elements (dropWhile (\<lambda>x. \<not> is_sep x) cs) @ elements b"
      using 2(2) [OF False] by (simp only: dropWhile_before_sep)
    finally show ?thesis using False by simp
  qed
qed

lemma elements_single: "plain e \<Longrightarrow> elements e = [e]"
proof -
  assume "plain e"
  then obtain c cs where e: "e = c # cs" and nc: "\<not> is_sep c" and ncs: "\<forall>x\<in>set cs. \<not> is_sep x"
    by (cases e) (auto simp: plain_def is_sep_def)
  from ncs have t: "takeWhile (\<lambda>x. \<not> is_sep x) cs = cs"
    and d: "dropWhile (\<lambda>x. \<not> is_sep x) cs = []"
    by simp_all
  show ?thesis using nc by (simp add: e t d)
qed

lemma elements_join_slash: "\<forall>e\<in>set cs. plain e \<Longrightarrow> elements (join_slash cs) = cs"
proof (induction cs rule: join_slash.induct)
  case 1
  show ?case by simp
next
  case (2 e)
  then show ?case by (simp add: elements_single)
next
  case (3 e f es)
  have "elements (join_slash (e # f # es)) = elements (e @ CHR ''/'' # join_slash (f # es))"
    by simp
  also have "\<dots> = elements e @ elements (join_slash (f # es))"
    by (rule elements_append_sep)
  finally show ?case using 3 by (simp add: elements_single)
qed

lemma clean_elements_no_dotdot:
  "\<forall>e\<in>set es. e \<noteq> ''..'' \<Longrightarrow>
   clean_elements r out es = rev out @ filter (\<lambda>e. e \<noteq> ''.'') es"
  by (induction es arbitrary: out) simp_all

lemma clean_elements_real:
  "\<forall>e\<in>set es. real_element e \<Longrightarrow> clean_elements r [] es = es"
proof -
  assume a: "\<forall>e\<in>set es. real_element e"
  then have "\<forall>e\<in>set es. e \<noteq> ''..''" by (auto simp: real_element_def)
  moreover from a have "filter (\<lambda>e. e \<noteq> ''.'') es = es"
    by (simp add: real_element_def filter_id_conv)
  ultimately show ?thesis by (simp add: clean_elements_no_dotdot)
qed

lemma clean_elements_rooted_real:
  "\<forall>e\<in>set out. real_element e \<Longrightarrow> \<forall>e\<in>set es. plain e \<Longrightarrow>
   \<forall>e\<in>set (clean_elements True out es). real_element e"
proof (induction es arbitrary: out)
  case Nil
  then show ?case by simp
next
  case (Cons e es)
  from Cons.prems(2) have pe: "plain e" and pes: "\<forall>e\<in>set es. plain e" by simp_all
  note IH = Cons.IH
  note out_real = Cons.prems(1)
  show ?case
  proof (cases "e = ''.''")
    case True
    with IH [OF out_real pes] show ?thesis by simp
  next
    case nd: False
    show ?thesis
    proof (cases "e = ''..''")
      case True
      show ?thesis
      proof (cases out)
        case Nil
        with True nd IH [of "[]", OF _ pes] show ?thesis by simp
      next
        case (Cons t ts)
        with out_real have t: "t \<noteq> ''..''" and ts: "\<forall>e\<in>set ts. real_element e"
          by (auto simp: real_element_def)
        from IH [OF ts pes] True nd Cons t show ?thesis by simp
      qed
    next
      case False
      with nd pe have "real_element e" by (simp add: real_element_def plain_def)
      with out_real have "\<forall>x\<in>set (e # out). real_element x" by simp
      from IH [OF this pes] nd False show ?thesis by simp
    qed
  qed
qed

lemma clean_elements_plain:
  "\<forall>e\<in>set out. plain e \<Longrightarrow> \<forall>e\<in>set es. plain e \<Longrightarrow>
   \<forall>e\<in>set (clean_elements r out es). plain e"
proof (induction es arbitrary: out)
  case Nil
  then show ?case by simp
next
  case (Cons e es)
  have dd: "plain ''..''" by (simp add: plain_def)
  from Cons.prems(2) have pe: "plain e" and pes: "\<forall>e\<in>set es. plain e" by simp_all
  have step: "\<forall>x\<in>set (clean_elements r out' es). plain x" if "\<forall>x\<in>set out'. plain x" for out'
    using that pes by (rule Cons.IH)
  show ?case
  proof (cases out)
    case Nil
    with step [of "[]"] step [of "[''..'']"] step [of "[e]"] pe dd show ?thesis by simp
  next
    case (Cons t ts)
    with Cons.prems(1) have pts: "\<forall>x\<in>set ts. plain x" and po: "\<forall>x\<in>set (t # ts). plain x"
      by simp_all
    from po dd have p1: "\<forall>x\<in>set (''..'' # t # ts). plain x" by simp
    from po pe have p2: "\<forall>x\<in>set (e # t # ts). plain x" by simp
    from step [OF pts] step [OF po] step [OF p1] step [OF p2] Cons show ?thesis by simp
  qed
qed

lemma join_slash_not_abs: "\<forall>e\<in>set cs. plain e \<Longrightarrow> \<not> IsAbs (join_slash cs)"
proof (cases cs)
  case Nil
  then show ?thesis by (simp add: IsAbs_def)
next
  case (Cons e es)
  assume "\<forall>e\<in>set cs. plain e"
  with Cons obtain c r where e: "e = c # r" and c: "c \<noteq> CHR ''/''"
    by (cases e) (auto simp: plain_def)
  show ?thesis
    using c by (cases es) (simp_all add: Cons e IsAbs_def is_sep_def)
qed

lemma join_slash_eq_Nil: "\<forall>e\<in>set cs. plain e \<Longrightarrow> join_slash cs = [] \<longleftrightarrow> cs = []"
proof (cases cs)
  case Nil
  then show ?thesis by simp
next
  case (Cons e es)
  assume "\<forall>e\<in>set cs. plain e"
  with Cons have "e \<noteq> []" by (simp add: plain_def)
  then show ?thesis by (cases es) (simp_all add: Cons)
qed

lemma slash_join_slash: "cs \<noteq> [] \<Longrightarrow> CHR ''/'' # join_slash cs = concat (map ((#) CHR ''/'') cs)"
  by (induction cs rule: join_slash.induct) simp_all


lemma IsAbs_Cons [simp]: "IsAbs (c # p) \<longleftrightarrow> c = CHR ''/''"
  by (simp add: IsAbs_def is_sep_def)

lemma IsAbs_Nil [simp]: "\<not> IsAbs []"
  by (simp add: IsAbs_def)

text \<open>Cleaning a rooted path leaves a slash and real elements.\<close>

lemma Clean_rooted:
  assumes "IsAbs p"
  shows "\<exists>cs. (\<forall>e\<in>set cs. real_element e) \<and> Clean p = CHR ''/'' # join_slash cs"
proof -
  let ?cs = "clean_elements True [] (elements p)"
  have "\<forall>e\<in>set ?cs. real_element e"
    using elements_plain [of p] by (intro clean_elements_rooted_real) simp_all
  moreover have "Clean p = CHR ''/'' # join_slash ?cs"
    using assms by (cases p) (simp_all add: Clean_def)
  ultimately show ?thesis by blast
qed

lemma Clean_slash_join:
  assumes "\<forall>e\<in>set cs. real_element e"
  shows "Clean (CHR ''/'' # join_slash cs) = CHR ''/'' # join_slash cs"
proof -
  from assms have "\<forall>e\<in>set cs. plain e" by (simp add: real_element_plain)
  then have "elements (join_slash cs) = cs" by (rule elements_join_slash)
  then show ?thesis
    using assms by (simp add: Clean_def clean_elements_real)
qed

lemma Clean_join:
  assumes "\<forall>e\<in>set cs. real_element e" and "cs \<noteq> []"
  shows "Clean (join_slash cs) = join_slash cs"
proof -
  from assms(1) have p: "\<forall>e\<in>set cs. plain e" by (simp add: real_element_plain)
  then have el: "elements (join_slash cs) = cs" by (rule elements_join_slash)
  from p assms(2) have ne: "join_slash cs \<noteq> []" by (simp add: join_slash_eq_Nil)
  from p have na: "\<not> IsAbs (join_slash cs)" by (rule join_slash_not_abs)
  show ?thesis
    using assms(1) ne na by (simp add: Clean_def el clean_elements_real)
qed

lemma Clean_keeps_relative:
  assumes "\<not> IsAbs p"
  shows "\<not> IsAbs (Clean p)"
proof (cases "p = []")
  case True
  then show ?thesis by (simp add: Clean_def)
next
  case False
  let ?cs = "clean_elements False [] (elements p)"
  have "\<forall>e\<in>set ?cs. plain e"
    using elements_plain [of p] by (intro clean_elements_plain) simp_all
  then have "\<not> IsAbs (join_slash ?cs)" by (rule join_slash_not_abs)
  then show ?thesis
    using assms False by (simp add: Clean_def)
qed

text \<open>The shapes of a cleaned request path.\<close>

lemma cleanPath_shape:
  "cleanPath f = [] \<or> cleanPath f = ''.'' \<or>
   (\<exists>cs. (\<forall>e\<in>set cs. real_element e) \<and>
      (cleanPath f = CHR ''/'' # join_slash cs \<and> IsAbs f \<or>
       cs \<noteq> [] \<and> cleanPath f = join_slash cs))"
proof (cases "f = []")
  case True
  then show ?thesis by (simp add: cleanPath_def)
next
  case ne: False
  show ?thesis
  proof (cases "IsAbs (Clean f)")
    case True
    then have abs: "IsAbs f" using Clean_keeps_relative by blast
    from Clean_rooted [OF abs] obtain cs where cs: "\<forall>e\<in>set cs. real_element e"
      and c: "Clean f = CHR ''/'' # join_slash cs" by blast
    have "cleanPath f = Clean (Clean f)"
      using ne True by (simp add: cleanPath_def)
    also have "\<dots> = CHR ''/'' # join_slash cs"
      using cs by (simp add: c Clean_slash_join)
    finally show ?thesis using cs abs by blast
  next
    case False
    have "IsAbs (CHR ''/'' # Clean f)" by simp
    from Clean_rooted [OF this] obtain cs where cs: "\<forall>e\<in>set cs. real_element e"
      and c: "Clean (CHR ''/'' # Clean f) = CHR ''/'' # join_slash cs" by blast
    from cs have p: "\<forall>e\<in>set cs. plain e" by (simp add: real_element_plain)
    have rel: "Rel_root (CHR ''/'' # join_slash cs) =
        Some (if cs = [] then ''.'' else join_slash cs)"
      using cs p by (simp add: Rel_root_def Clean_slash_join join_slash_eq_Nil)
    have "cleanPath f = Clean (if cs = [] then ''.'' else join_slash cs)"
      using ne False by (simp add: cleanPath_def c rel)
    also have "\<dots> = (if cs = [] then ''.'' else join_slash cs)"
      using cs by (simp add: Clean_join) (simp add: Clean_def is_sep_def)
    finally show ?thesis using cs by (cases "cs = []") auto
  qed
qed

lemma elements_dot: "elements ''.'' = [''.'']"
  by (simp add: is_sep_def)

lemma cleanPath_elements:
  "''..'' \<notin> set (elements (cleanPath f)) \<and>
   (\<forall>e\<in>set (filter (\<lambda>e. e \<noteq> ''.'') (elements (cleanPath f))). real_element e)"
proof -
  have r: "''..'' \<notin> set cs \<and> (\<forall>e\<in>set (filter (\<lambda>e. e \<noteq> ''.'') cs). real_element e)"
    if "\<forall>e\<in>set cs. real_element e" for cs
    using that by (auto simp: real_element_def)
  have p: "elements (join_slash cs) = cs" if "\<forall>e\<in>set cs. real_element e" for cs
    using that by (intro elements_join_slash) (simp add: real_element_plain)
  from cleanPath_shape [of f] show ?thesis
  proof (elim disjE exE conjE)
    assume "cleanPath f = []"
    then show ?thesis by simp
  next
    assume "cleanPath f = ''.''"
    then show ?thesis by (simp add: elements_dot)
  next
    fix cs assume "\<forall>e\<in>set cs. real_element e" "cleanPath f = CHR ''/'' # join_slash cs"
    then show ?thesis using r [of cs] p [of cs] by simp
  next
    fix cs assume "\<forall>e\<in>set cs. real_element e" "cleanPath f = join_slash cs"
    then show ?thesis using r [of cs] p [of cs] by simp
  qed
qed

lemma cleanPath_keeps_relative: "\<not> IsAbs f \<Longrightarrow> \<not> IsAbs (cleanPath f)"
proof -
  assume na: "\<not> IsAbs f"
  from cleanPath_shape [of f] show ?thesis
  proof (elim disjE exE conjE)
    assume "cleanPath f = []"
    then show ?thesis by simp
  next
    assume "cleanPath f = ''.''"
    then show ?thesis by simp
  next
    fix cs assume "IsAbs f"
    with na show ?thesis by simp
  next
    fix cs assume "\<forall>e\<in>set cs. real_element e" "cleanPath f = join_slash cs"
    then show ?thesis by (simp add: join_slash_not_abs real_element_plain)
  qed
qed

lemma cleanPath_keeps_absolute: "IsAbs f \<Longrightarrow> IsAbs (cleanPath f)"
proof -
  assume abs: "IsAbs f"
  then have ne: "f \<noteq> []" by auto
  from Clean_rooted [OF abs] obtain cs where cs: "\<forall>e\<in>set cs. real_element e"
    and c: "Clean f = CHR ''/'' # join_slash cs" by blast
  have "cleanPath f = Clean (Clean f)"
    using ne by (simp add: cleanPath_def c)
  also have "\<dots> = CHR ''/'' # join_slash cs"
    using cs by (simp add: c Clean_slash_join)
  finally show ?thesis by simp
qed

lemma elements_TFTPPath: "elements TFTPPath = [''var'', ''lib'', ''tftp'']"
  by (simp add: TFTPPath_def is_sep_def)

lemma Join_TFTPPath:
  assumes "''..'' \<notin> set (elements q)"
  shows "Join [TFTPPath, q] =
     TFTPPath @ concat (map ((#) CHR ''/'') (filter (\<lambda>e. e \<noteq> ''.'') (elements q)))"
proof -
  let ?cs = "filter (\<lambda>e. e \<noteq> ''.'') (elements q)"
  have j: "Join [TFTPPath, q] = Clean (TFTPPath @ CHR ''/'' # q)"
    by (simp add: TFTPPath_def)
  have el: "elements (TFTPPath @ CHR ''/'' # q) = [''var'', ''lib'', ''tftp''] @ elements q"
    by (simp only: elements_append_sep elements_TFTPPath)
  have "\<forall>e\<in>set ([''var'', ''lib'', ''tftp''] @ elements q). e \<noteq> ''..''"
    using assms by auto
  then have ce: "clean_elements True [] ([''var'', ''lib'', ''tftp''] @ elements q) =
      [''var'', ''lib'', ''tftp''] @ ?cs"
    by (simp add: clean_elements_no_dotdot)
  have abs: "IsAbs (TFTPPath @ CHR ''/'' # q)" "TFTPPath @ CHR ''/'' # q \<noteq> []"
    by (simp_all add: TFTPPath_def)
  have "Clean (TFTPPath @ CHR ''/'' # q) =
      CHR ''/'' # join_slash ([''var'', ''lib'', ''tftp''] @ ?cs)"
    using abs by (simp add: Clean_def el ce del: append.simps join_slash.simps)
  also have "\<dots> = concat (map ((#) CHR ''/'') ([''var'', ''lib'', ''tftp''] @ ?cs))"
    by (rule slash_join_slash) simp
  also have "\<dots> = TFTPPath @ concat (map ((#) CHR ''/'') ?cs)"
    by (simp add: TFTPPath_def)
  finally show ?thesis using j by simp
qed

text \<open>
  C7 (as amended). For every requested file name, the normalized name has no \<open>..\<close>
  element, is relative when the requested name is relative and absolute when it is
  absolute, and joined to the root it is the root followed by zero or more real
  elements, each behind a slash: the file that is opened is the root or lies below it.
\<close>

theorem handleRead_filename_inside_root:
  "\<exists>cs. (\<forall>e\<in>set cs. real_element e) \<and>
     handleRead_filename f = TFTPPath @ concat (map ((#) CHR ''/'') cs) \<and>
     ''..'' \<notin> set (elements (cleanPath f)) \<and>
     (\<not> IsAbs f \<longrightarrow> \<not> IsAbs (cleanPath f)) \<and>
     (IsAbs f \<longrightarrow> IsAbs (cleanPath f))"
proof -
  let ?cs = "filter (\<lambda>e. e \<noteq> ''.'') (elements (cleanPath f))"
  from cleanPath_elements [of f] have nd: "''..'' \<notin> set (elements (cleanPath f))"
    and re: "\<forall>e\<in>set ?cs. real_element e" by simp_all
  have "handleRead_filename f = TFTPPath @ concat (map ((#) CHR ''/'') ?cs)"
    unfolding handleRead_filename_def using nd by (rule Join_TFTPPath)
  with nd re cleanPath_keeps_relative [of f] cleanPath_keeps_absolute [of f]
  show ?thesis by blast
qed

lemma cleanPath_examples:
  "cleanPath ''../../etc/passwd'' = ''etc/passwd''"
  "handleRead_filename ''../../etc/passwd'' = ''/var/lib/tftp/etc/passwd''"
  "cleanPath ''/etc/passwd'' = ''/etc/passwd''"
  "cleanPath ''/a/../../snp.efi'' = ''/snp.efi''"
  "handleRead_filename ''/a/../../snp.efi'' = ''/var/lib/tftp/snp.efi''"
  by code_simp+

theorem handleRead_filename_inside_root_witness:
  "real_element ''etc'' \<and> real_element ''passwd'' \<and>
   handleRead_filename ''../../etc/passwd'' =
     TFTPPath @ concat (map ((#) CHR ''/'') [''etc'', ''passwd'']) \<and>
   ''..'' \<notin> set (elements (cleanPath ''../../etc/passwd'')) \<and>
   \<not> IsAbs ''../../etc/passwd'' \<and> \<not> IsAbs (cleanPath ''../../etc/passwd'') \<and>
   IsAbs ''/a/../../snp.efi'' \<and> IsAbs (cleanPath ''/a/../../snp.efi'') \<and>
   real_element ''snp.efi'' \<and>
   handleRead_filename ''/a/../../snp.efi'' = TFTPPath @ concat (map ((#) CHR ''/'') [''snp.efi''])"
proof -
  have ab: "IsAbs ''/a/../../snp.efi''" by simp
  from handleRead_filename_inside_root [of "''/a/../../snp.efi''"] ab
  have ab': "IsAbs (cleanPath ''/a/../../snp.efi'')" by blast
  have rs: "real_element ''snp.efi''" by (simp add: real_element_def)
  have hs: "handleRead_filename ''/a/../../snp.efi'' =
      TFTPPath @ concat (map ((#) CHR ''/'') [''snp.efi''])"
    by (simp add: cleanPath_examples TFTPPath_def)
  have na: "\<not> IsAbs ''../../etc/passwd''" by simp
  from handleRead_filename_inside_root [of "''../../etc/passwd''"] na
  have "''..'' \<notin> set (elements (cleanPath ''../../etc/passwd'')) \<and>
      \<not> IsAbs (cleanPath ''../../etc/passwd'')"
    by blast
  moreover have "real_element ''etc'' \<and> real_element ''passwd''"
    by (simp add: real_element_def)
  moreover have "handleRead_filename ''../../etc/passwd'' =
      TFTPPath @ concat (map ((#) CHR ''/'') [''etc'', ''passwd''])"
    by (simp add: cleanPath_examples TFTPPath_def)
  ultimately show ?thesis using na ab ab' rs hs by blast
qed

text \<open>
  C7 (as stated). The normalized name is not always relative: an absolute name is
  normalized to an absolute one.
\<close>

theorem cleanPath_absolute_stays_absolute:
  "IsAbs (cleanPath ''/etc/passwd'')"
  by (simp add: cleanPath_examples)

end
